theory Spec2Isabelle
  imports Main "HOL-Library.Word"
begin

section \<open>Go library functions used by the adapter\<close>

subsection \<open>Package strings\<close>

text \<open>
  A Go string is a sequence of bytes; \<open>len\<close> counts bytes. It is modelled as a
  \<^typ>\<open>string\<close> (a list of 8-bit characters) and \<open>len\<close> as \<^const>\<open>length\<close>.
\<close>

definition HasPrefix :: "string \<Rightarrow> string \<Rightarrow> bool" where
  "HasPrefix s pre = (length pre \<le> length s \<and> take (length pre) s = pre)"

definition HasSuffix :: "string \<Rightarrow> string \<Rightarrow> bool" where
  "HasSuffix s suffix =
     (length suffix \<le> length s \<and> drop (length s - length suffix) s = suffix)"

text \<open>\<open>strings.CutPrefix\<close>: the string without the prefix and whether it was found.\<close>

definition CutPrefix :: "string \<Rightarrow> string \<Rightarrow> string \<times> bool" where
  "CutPrefix s pre = (if HasPrefix s pre then (drop (length pre) s, True) else (s, False))"

text \<open>\<open>strings.Contains\<close>: the substring occurs at some position of \<open>s\<close>.\<close>

fun Contains :: "string \<Rightarrow> string \<Rightarrow> bool" where
  "Contains [] substr = (substr = [])"
| "Contains (c # cs) substr = (HasPrefix (c # cs) substr \<or> Contains cs substr)"

subsection \<open>Package net/url\<close>

text \<open>
  The escaping functions of Go's standard library, with the two encodings the service
  uses: \<open>url.QueryEscape\<close> works in mode \<open>encodeQueryComponent\<close>, \<open>url.PathUnescape\<close>
  in mode \<open>encodePathSegment\<close>.
\<close>

datatype encoding = encodePathSegment | encodeQueryComponent

definition between :: "char \<Rightarrow> char \<Rightarrow> char \<Rightarrow> bool" where
  "between lo c hi = ((of_char lo :: nat) \<le> of_char c \<and> (of_char c :: nat) \<le> of_char hi)"

definition shouldEscape :: "char \<Rightarrow> encoding \<Rightarrow> bool" where
  "shouldEscape c mode =
     (if between CHR ''a'' c CHR ''z'' \<or> between CHR ''A'' c CHR ''Z'' \<or> between CHR ''0'' c CHR ''9''
      then False
      else if c \<in> set ''-_.~'' then False
      else if c \<in> set ''$&+,/:;=?@'' then
        (case mode of
           encodePathSegment \<Rightarrow> c = CHR ''/'' \<or> c = CHR '';'' \<or> c = CHR '','' \<or> c = CHR ''?''
         | encodeQueryComponent \<Rightarrow> True)
      else True)"

definition upperhex :: string where
  "upperhex = ''0123456789ABCDEF''"

text \<open>
  \<open>escape\<close> returns its argument unchanged when no byte needs escaping and otherwise
  rebuilds it byte by byte; both paths agree with the byte-wise translation below
  (\<open>c >> 4\<close> is \<open>div 16\<close>, \<open>c & 15\<close> is \<open>mod 16\<close>).
\<close>

fun escape :: "string \<Rightarrow> encoding \<Rightarrow> string" where
  "escape [] mode = []"
| "escape (c # cs) mode =
     (if c = CHR '' '' \<and> mode = encodeQueryComponent then CHR ''+'' # escape cs mode
      else if shouldEscape c mode
      then CHR ''%'' # upperhex ! (of_char c div 16) # upperhex ! (of_char c mod 16) # escape cs mode
      else c # escape cs mode)"

definition QueryEscape :: "string \<Rightarrow> string" where
  "QueryEscape s = escape s encodeQueryComponent"

definition ishex :: "char \<Rightarrow> bool" where
  "ishex c = (between CHR ''0'' c CHR ''9'' \<or> between CHR ''a'' c CHR ''f'' \<or> between CHR ''A'' c CHR ''F'')"

definition unhex :: "char \<Rightarrow> nat" where
  "unhex c =
     (if between CHR ''0'' c CHR ''9'' then of_char c - of_char CHR ''0''
      else if between CHR ''a'' c CHR ''f'' then of_char c - of_char CHR ''a'' + 10
      else if between CHR ''A'' c CHR ''F'' then of_char c - of_char CHR ''A'' + 10
      else 0)"

text \<open>
  \<open>unescape\<close> fails with an \<open>EscapeError\<close> (here \<open>None\<close>) when a \<open>%\<close> is not followed
  by two hexadecimal digits; a \<open>+\<close> becomes a space in query mode only.
\<close>

fun unescape :: "string \<Rightarrow> encoding \<Rightarrow> string option" where
  "unescape [] mode = Some []"
| "unescape (c # cs) mode =
     (if c = CHR ''%'' then
        (case cs of
           h # l # rest \<Rightarrow>
             (if ishex h \<and> ishex l
              then map_option ((#) (char_of (unhex h * 16 + unhex l))) (unescape rest mode)
              else None)
         | _ \<Rightarrow> None)
      else if c = CHR ''+'' \<and> mode = encodeQueryComponent
      then map_option ((#) CHR '' '') (unescape cs mode)
      else map_option ((#) c) (unescape cs mode))"

definition PathUnescape :: "string \<Rightarrow> string option" where
  "PathUnescape s = unescape s encodePathSegment"

definition QueryUnescape :: "string \<Rightarrow> string option" where
  "QueryUnescape s = unescape s encodeQueryComponent"

text \<open>The conversion \<open>int32(n)\<close> of a Go \<open>int\<close>: the low 32 bits, read as signed.\<close>

definition int32 :: "int \<Rightarrow> int" where
  "int32 n = sint (word_of_int n :: 32 word)"

section \<open>The object store\<close>

text \<open>
  An error of the S3 client is either a \<open>smithy.APIError\<close> with its error code, or
  any other error (configuration, transport), for which \<open>errors.As\<close> fails.
\<close>

datatype s3_error = APIError string | OtherError

fun ErrorCodeIs :: "s3_error \<Rightarrow> string \<Rightarrow> bool" where
  "ErrorCodeIs (APIError code) c = (code = c)"
| "ErrorCodeIs OtherError c = False"

text \<open>The requests the adapter sends, with the fields it sets, in the order of the source.\<close>

datatype s3_request =
    ListObjectsV2 (rq_Bucket: string) (rq_Prefix: string) (rq_MaxKeys: int)
      (rq_ContinuationToken: "string option")
  | GetObject (rq_Bucket: string) (rq_Key: string) (rq_IfNoneMatch: "string option")
  | PutObject (rq_Bucket: string) (rq_Key: string) (rq_ContentType: string) (rq_Body: string)
      (rq_IfNoneMatch: "string option")
  | CopyObject (rq_Bucket: string) (rq_CopySource: string) (rq_Key: string)
  | DeleteObject (rq_Bucket: string) (rq_Key: string)

type_synonym Time = nat

record s3_entry =
  Key :: string
  LastModified :: Time
  ETag :: string

record ListObjectsV2Output =
  Contents :: "s3_entry list"
  IsTruncated :: bool
  NextContinuationToken :: "string option"

record GetObjectOutput =
  out_Body :: string
  out_ETag :: string

record s3_object =
  obj_body :: string
  obj_type :: string
  obj_etag :: string

text \<open>
  Modelled from the spec: the object store and its client, an external collaborator that
  the adapter uses as a black box (section 6 of the specification), with conditional
  requests and opaque fingerprints.
  \<^item> \<open>objects\<close> maps bucket and key to the stored object;
  \<^item> \<open>etag_of\<close> is the fingerprint the store assigns to a content;
  \<^item> \<open>lister\<close> is the store-defined answer to a listing request (order, page
    boundaries and cursors are the store's business and are left open);
  \<^item> \<open>delete_reports_missing\<close> tells which of the two behaviours section 6 allows for
    the removal of an absent key the store has: an error \<open>NoSuchKey\<close>, or success;
  \<^item> \<open>pending\<close> schedules failures: every interaction with the environment (loading
    the client configuration, a request, reading a response body) takes the head of the
    list, and fails with that error, without effect on the store, when it is \<open>Some\<close>;
  \<^item> \<open>calls\<close> logs every request sent, in order.
\<close>

record world =
  objects :: "string \<times> string \<Rightarrow> s3_object option"
  etag_of :: "string \<Rightarrow> string"
  lister :: "string \<Rightarrow> string \<Rightarrow> int \<Rightarrow> string option \<Rightarrow> s3_error + ListObjectsV2Output"
  delete_reports_missing :: bool
  pending :: "s3_error option list"
  calls :: "s3_request list"

definition next_fault :: "world \<Rightarrow> s3_error option \<times> world" where
  "next_fault w =
     (case pending w of
        [] \<Rightarrow> (None, w)
      | f # fs \<Rightarrow> (f, w\<lparr>pending := fs\<rparr>))"

text \<open>\<open>config.LoadDefaultConfig\<close>: succeeds or fails, as the environment decides.\<close>

definition LoadDefaultConfig :: "world \<Rightarrow> s3_error option \<times> world" where
  "LoadDefaultConfig w = next_fault w"

text \<open>\<open>io.ReadAll\<close> on a response body: succeeds or fails, as the environment decides.\<close>

definition ReadAll :: "world \<Rightarrow> s3_error option \<times> world" where
  "ReadAll w = next_fault w"

definition send :: "s3_request \<Rightarrow> world \<Rightarrow> s3_error option \<times> world" where
  "send rq w = next_fault (w\<lparr>calls := calls w @ [rq]\<rparr>)"

text \<open>
  Modelled from the spec: \<open>list(prefix, maxEntries, cursor)\<close> of the object store
  (section 6); the page it answers with is the store's choice.
\<close>

definition s3_ListObjectsV2 ::
  "string \<Rightarrow> string \<Rightarrow> int \<Rightarrow> string option \<Rightarrow> world \<Rightarrow> (s3_error + ListObjectsV2Output) \<times> world" where
  "s3_ListObjectsV2 bucket pre maxKeys token w0 =
     (case send (ListObjectsV2 bucket pre maxKeys token) w0 of
        (Some err, w) \<Rightarrow> (Inl err, w)
      | (None, w) \<Rightarrow> (lister w bucket pre maxKeys token, w))"

text \<open>
  Modelled from the spec: \<open>get(key, ifFingerprintNotEqualTo)\<close> of the object store
  (section 6): no such key, fingerprint matched (not modified), or the content and its
  fingerprint.
\<close>

definition s3_GetObject ::
  "string \<Rightarrow> string \<Rightarrow> string option \<Rightarrow> world \<Rightarrow> (s3_error + GetObjectOutput) \<times> world" where
  "s3_GetObject bucket key ifNoneMatch w0 =
     (case send (GetObject bucket key ifNoneMatch) w0 of
        (Some err, w) \<Rightarrow> (Inl err, w)
      | (None, w) \<Rightarrow>
          (case objects w (bucket, key) of
             None \<Rightarrow> (Inl (APIError ''NoSuchKey''), w)
           | Some obj \<Rightarrow>
               if ifNoneMatch = Some (obj_etag obj) then (Inl (APIError ''NotModified''), w)
               else (Inr \<lparr>out_Body = obj_body obj, out_ETag = obj_etag obj\<rparr>, w)))"

text \<open>
  Modelled from the spec: \<open>put(key, bytes, contentTypeHint, ifNoExistingFingerprint)\<close>
  of the object store (section 6): with the precondition \<open>If-None-Match: *\<close> the put
  fails when the key holds an object; otherwise the content is stored, replacing what the
  key held, and its fingerprint is returned.
\<close>

definition s3_PutObject ::
  "string \<Rightarrow> string \<Rightarrow> string \<Rightarrow> string \<Rightarrow> string option \<Rightarrow> world \<Rightarrow> (s3_error + string) \<times> world" where
  "s3_PutObject bucket key ctype body ifNoneMatch w0 =
     (case send (PutObject bucket key ctype body ifNoneMatch) w0 of
        (Some err, w) \<Rightarrow> (Inl err, w)
      | (None, w) \<Rightarrow>
          if ifNoneMatch = Some ''*'' \<and> objects w (bucket, key) \<noteq> None
          then (Inl (APIError ''PreconditionFailed''), w)
          else (Inr (etag_of w body),
                w\<lparr>objects := (objects w)((bucket, key) \<mapsto>
                     \<lparr>obj_body = body, obj_type = ctype, obj_etag = etag_of w body\<rparr>)\<rparr>))"

text \<open>
  Modelled from the spec: how the object store reads the source of a copy. The copy
  source is \<open>bucket/key\<close> with the key URL-encoded (which is why \<open>renameFile\<close>
  escapes the file name); the store splits it at the first slash and decodes the key, a
  plus sign standing for a space.
\<close>

definition copy_source :: "string \<Rightarrow> (string \<times> string) option" where
  "copy_source src =
     (case QueryUnescape (drop 1 (dropWhile (\<lambda>c. c \<noteq> CHR ''/'') src)) of
        None \<Rightarrow> None
      | Some key \<Rightarrow> Some (takeWhile (\<lambda>c. c \<noteq> CHR ''/'') src, key))"

text \<open>
  Modelled from the spec: \<open>copy(sourceKey, destKey)\<close> of the object store (section 6):
  no such source key, or the source's content stored at the destination and its
  fingerprint returned. A source that cannot be decoded is refused.
\<close>

definition s3_CopyObject ::
  "string \<Rightarrow> string \<Rightarrow> string \<Rightarrow> world \<Rightarrow> (s3_error + string) \<times> world" where
  "s3_CopyObject bucket src key w0 =
     (case send (CopyObject bucket src key) w0 of
        (Some err, w) \<Rightarrow> (Inl err, w)
      | (None, w) \<Rightarrow>
          (case copy_source src of
             None \<Rightarrow> (Inl (APIError ''InvalidArgument''), w)
           | Some origin \<Rightarrow>
               (case objects w origin of
                  None \<Rightarrow> (Inl (APIError ''NoSuchKey''), w)
                | Some obj \<Rightarrow>
                    (Inr (etag_of w (obj_body obj)),
                     w\<lparr>objects := (objects w)((bucket, key) \<mapsto>
                          obj\<lparr>obj_etag := etag_of w (obj_body obj)\<rparr>)\<rparr>))))"

text \<open>
  Modelled from the spec: \<open>delete(key)\<close> of the object store (section 6): removes the
  object; the removal of an absent key is success, or the error \<open>NoSuchKey\<close>.
\<close>

definition s3_DeleteObject :: "string \<Rightarrow> string \<Rightarrow> world \<Rightarrow> (s3_error + unit) \<times> world" where
  "s3_DeleteObject bucket key w0 =
     (case send (DeleteObject bucket key) w0 of
        (Some err, w) \<Rightarrow> (Inl err, w)
      | (None, w) \<Rightarrow>
          if objects w (bucket, key) = None \<and> delete_reports_missing w
          then (Inl (APIError ''NoSuchKey''), w)
          else (Inr (), w\<lparr>objects := (objects w)((bucket, key) := None)\<rparr>))"

section \<open>The note-storage adapter (s3connect.go)\<close>

datatype app_error =
    ErrServiceUnavailable
  | ErrInvalidArgument
  | ErrNotFound
  | ErrNotModified
  | ErrAlreadyExists

record FileData =
  FileName :: string
  file_LastModified :: Time
  file_ETag :: string

record ListFilesResult =
  Files :: "FileData list"
  HasMore :: bool
  list_NextContinuationToken :: string

record GetFileContentResult =
  Content :: string
  get_ETag :: string

record SaveFileContentResult =
  save_ETag :: string

record RenameFileResult =
  rename_ETag :: string

text \<open>\<open>logAndReturnError\<close> writes the incoming error to the log and returns the outgoing one.\<close>

definition logAndReturnError :: "s3_error \<Rightarrow> app_error \<Rightarrow> app_error" where
  "logAndReturnError errIn errOut = errOut"

definition isSupportedFileType :: "string \<Rightarrow> bool" where
  "isSupportedFileType fileName = (HasSuffix fileName ''.txt'' \<or> HasSuffix fileName ''.md'')"

definition isMarkdown :: "string \<Rightarrow> bool" where
  "isMarkdown fileName = HasSuffix fileName ''.md''"

text \<open>The loop of \<open>listFiles\<close> over \<open>output.Contents\<close>, appending in order.\<close>

fun processContents :: "string \<Rightarrow> s3_entry list \<Rightarrow> FileData list" where
  "processContents pre [] = []"
| "processContents pre (obj # rest) =
     (if isSupportedFileType (Key obj)
      then \<lparr>FileName = fst (CutPrefix (Key obj) pre),
            file_LastModified = LastModified obj,
            file_ETag = ETag obj\<rparr> # processContents pre rest
      else processContents pre rest)"

definition listFiles ::
  "string \<Rightarrow> string \<Rightarrow> int \<Rightarrow> string \<Rightarrow> world \<Rightarrow> (app_error + ListFilesResult) \<times> world" where
  "listFiles bucket pre pageSize continuationToken w0 =
     (case LoadDefaultConfig w0 of
        (Some err, w1) \<Rightarrow> (Inl (logAndReturnError err ErrServiceUnavailable), w1)
      | (None, w1) \<Rightarrow>
          (let maxKeys = int32 pageSize;
               token = (if continuationToken \<noteq> [] then Some continuationToken else None)
           in case s3_ListObjectsV2 bucket pre maxKeys token w1 of
                (Inl err, w2) \<Rightarrow>
                  (if ErrorCodeIs err ''InvalidArgument''
                   then (Inl (logAndReturnError err ErrInvalidArgument), w2)
                   else (Inl (logAndReturnError err ErrServiceUnavailable), w2))
              | (Inr output, w2) \<Rightarrow>
                  (Inr \<lparr>Files = processContents pre (Contents output),
                        HasMore = IsTruncated output,
                        list_NextContinuationToken =
                          (case NextContinuationToken output of None \<Rightarrow> [] | Some t \<Rightarrow> t)\<rparr>,
                   w2)))"

definition getFileContent ::
  "string \<Rightarrow> string \<Rightarrow> string \<Rightarrow> string \<Rightarrow> world \<Rightarrow> (app_error + GetFileContentResult) \<times> world" where
  "getFileContent bucket pre fileName etag w0 =
     (case LoadDefaultConfig w0 of
        (Some err, w1) \<Rightarrow> (Inl (logAndReturnError err ErrServiceUnavailable), w1)
      | (None, w1) \<Rightarrow>
          (let key = pre @ fileName;
               ifNoneMatch = (if etag \<noteq> [] then Some etag else None)
           in case s3_GetObject bucket key ifNoneMatch w1 of
                (Inl err, w2) \<Rightarrow>
                  (if ErrorCodeIs err ''NoSuchKey''
                   then (Inl (logAndReturnError err ErrNotFound), w2)
                   else if ErrorCodeIs err ''NotModified''
                   then (Inl (logAndReturnError err ErrNotModified), w2)
                   else (Inl (logAndReturnError err ErrServiceUnavailable), w2))
              | (Inr output, w2) \<Rightarrow>
                  (case ReadAll w2 of
                     (Some err, w3) \<Rightarrow> (Inl (logAndReturnError err ErrServiceUnavailable), w3)
                   | (None, w3) \<Rightarrow>
                       (Inr \<lparr>Content = out_Body output, get_ETag = out_ETag output\<rparr>, w3))))"

definition saveFileContent ::
  "string \<Rightarrow> string \<Rightarrow> string \<Rightarrow> string \<Rightarrow> bool \<Rightarrow> world \<Rightarrow> (app_error + SaveFileContentResult) \<times> world" where
  "saveFileContent bucket pre fileName content overwrite w0 =
     (case LoadDefaultConfig w0 of
        (Some err, w1) \<Rightarrow> (Inl (logAndReturnError err ErrServiceUnavailable), w1)
      | (None, w1) \<Rightarrow>
          (let key = pre @ fileName;
               contentType = (if isMarkdown fileName then ''text/markdown; charset=UTF-8''
                              else ''text/plain'');
               ifNoneMatch = (if \<not> overwrite then Some ''*'' else None)
           in case s3_PutObject bucket key contentType content ifNoneMatch w1 of
                (Inl err, w2) \<Rightarrow>
                  (if ErrorCodeIs err ''PreconditionFailed''
                   then (Inl (logAndReturnError err ErrAlreadyExists), w2)
                   else (Inl (logAndReturnError err ErrServiceUnavailable), w2))
              | (Inr etag, w2) \<Rightarrow> (Inr \<lparr>save_ETag = etag\<rparr>, w2)))"

text \<open>The two names \<open>renameFile\<close> computes for the old file: \<open>source\<close> and \<open>key\<close>.\<close>

definition rename_source :: "string \<Rightarrow> string \<Rightarrow> string \<Rightarrow> string" where
  "rename_source bucket pre fileName = bucket @ ''/'' @ pre @ QueryEscape fileName"

definition rename_key :: "string \<Rightarrow> string \<Rightarrow> string" where
  "rename_key pre fileName = pre @ fileName"

definition renameFile ::
  "string \<Rightarrow> string \<Rightarrow> string \<Rightarrow> string \<Rightarrow> world \<Rightarrow> (app_error + RenameFileResult) \<times> world" where
  "renameFile bucket pre fileName newFileName w0 =
     (case LoadDefaultConfig w0 of
        (Some err, w1) \<Rightarrow> (Inl (logAndReturnError err ErrServiceUnavailable), w1)
      | (None, w1) \<Rightarrow>
          (case saveFileContent bucket pre newFileName [] False w1 of
             (Inl err, w2) \<Rightarrow> (Inl err, w2)
           | (Inr _, w2) \<Rightarrow>
               (let source = rename_source bucket pre fileName;
                    newKey = pre @ newFileName
                in case s3_CopyObject bucket source newKey w2 of
                     (Inl err, w3) \<Rightarrow>
                       (if ErrorCodeIs err ''NoSuchKey''
                        then (Inl (logAndReturnError err ErrNotFound), w3)
                        else (Inl (logAndReturnError err ErrServiceUnavailable), w3))
                   | (Inr etag, w3) \<Rightarrow>
                       (let result = \<lparr>rename_ETag = etag\<rparr>;
                            key = rename_key pre fileName
                        in case s3_DeleteObject bucket key w3 of
                             (Inl err, w4) \<Rightarrow>
                               (Inl (logAndReturnError err ErrServiceUnavailable), w4)
                           | (Inr _, w4) \<Rightarrow> (Inr result, w4)))))"


section \<open>Validation and the listing handler (validation.go, storageapi.go)\<close>

text \<open>
  Both files are embedded in their current form: file names end in \<open>.txt\<close> or \<open>.md\<close>,
  and the listing handler keeps the valid file names only. (The sources also hold an
  earlier form of both, for \<open>.txt\<close> alone and without that filter.)
\<close>

definition isPageSizeValid :: "int \<Rightarrow> bool" where
  "isPageSizeValid pageSize = (pageSize \<le> 1000)"

definition isContinuationTokenValid :: "string \<Rightarrow> bool" where
  "isContinuationTokenValid continuationToken = (length continuationToken \<le> 1000)"

definition isFileNameValid :: "string \<Rightarrow> bool" where
  "isFileNameValid fileName =
     (length fileName \<le> 200 \<and>
      ((HasSuffix fileName ''.txt'' \<and> length fileName > 4) \<or>
       (HasSuffix fileName ''.md'' \<and> length fileName > 3)) \<and>
      \<not> Contains fileName ''/'')"

definition PAGE_SIZE_DEFAULT :: int where
  "PAGE_SIZE_DEFAULT = 100"

record getFilesDataIn =
  PageSize :: int
  ContinuationToken :: string

record FileDataOut =
  out_FileName :: string
  out_LastModified :: Time
  out_FileETag :: string

record getFilesDataOut =
  out_Files :: "FileDataOut list"
  out_HasMore :: bool
  out_NextContinuationToken :: string

text \<open>The responses of \<open>handleGetFiles\<close>; the text of an error response is left out.\<close>

datatype http_response =
    BadRequest
  | InternalServerError
  | Success getFilesDataOut

text \<open>The loop of \<open>handleGetFiles\<close> over \<open>result.Files\<close>, appending in order.\<close>

fun packFiles :: "FileData list \<Rightarrow> FileDataOut list" where
  "packFiles [] = []"
| "packFiles (file # rest) =
     (if isFileNameValid (FileName file)
      then \<lparr>out_FileName = FileName file,
            out_LastModified = file_LastModified file,
            out_FileETag = file_ETag file\<rparr> # packFiles rest
      else packFiles rest)"

text \<open>
  \<open>handleGetFiles\<close>, with the configured bucket and the outcome of binding the query
  string (\<open>None\<close> when \<open>ShouldBindQuery\<close> fails) as arguments.
\<close>

definition handleGetFiles ::
  "string \<Rightarrow> string \<Rightarrow> getFilesDataIn option \<Rightarrow> world \<Rightarrow> http_response \<times> world" where
  "handleGetFiles bucket userId query w0 =
     (let pre = userId @ ''/''
      in case query of
           None \<Rightarrow> (BadRequest, w0)
         | Some getFilesIn \<Rightarrow>
             if \<not> isPageSizeValid (PageSize getFilesIn) then (BadRequest, w0)
             else
               (let pageSize = (if PageSize getFilesIn = 0 then PAGE_SIZE_DEFAULT
                                else PageSize getFilesIn)
                in if \<not> isContinuationTokenValid (ContinuationToken getFilesIn)
                   then (BadRequest, w0)
                   else
                     (case PathUnescape (ContinuationToken getFilesIn) of
                        None \<Rightarrow> (BadRequest, w0)
                      | Some continuationToken \<Rightarrow>
                          (case listFiles bucket pre pageSize continuationToken w0 of
                             (Inl err, w1) \<Rightarrow>
                               (if err = ErrInvalidArgument then (BadRequest, w1)
                                else (InternalServerError, w1))
                           | (Inr result, w1) \<Rightarrow>
                               (Success
                                  \<lparr>out_Files = packFiles (Files result),
                                   out_HasMore = HasMore result,
                                   out_NextContinuationToken =
                                     QueryEscape (list_NextContinuationToken result)\<rparr>,
                                w1)))))"

section \<open>Notions used to state the properties\<close>

text \<open>The requests sent between an earlier world and a later one.\<close>

definition new_calls :: "world \<Rightarrow> world \<Rightarrow> s3_request list" where
  "new_calls w w' = drop (length (calls w)) (calls w')"

text \<open>The next \<open>n\<close> interactions with the environment do not fail.\<close>

definition healthy :: "nat \<Rightarrow> world \<Rightarrow> bool" where
  "healthy n w = list_all (\<lambda>f. f = None) (take n (pending w))"

text \<open>
  The rename protocol as the specification words it: a create-only empty write at the
  target key, a copy of the source onto the target key, a delete of the source key.
\<close>

definition rename_steps :: "string \<Rightarrow> string \<Rightarrow> string \<Rightarrow> string \<Rightarrow> s3_request list" where
  "rename_steps bucket pre fileName newFileName =
     [PutObject bucket (pre @ newFileName)
        (if isMarkdown newFileName then ''text/markdown; charset=UTF-8'' else ''text/plain'')
        [] (Some ''*''),
      CopyObject bucket (rename_source bucket pre fileName) (pre @ newFileName),
      DeleteObject bucket (rename_key pre fileName)]"

text \<open>
  Names for which the store resolves the copy source of \<open>renameFile\<close> to the key it
  deletes: a bucket name has no slash, and the prefix (which \<open>renameFile\<close> does not
  escape) has no character the URL decoding rewrites.
\<close>

definition plain_names :: "string \<Rightarrow> string \<Rightarrow> bool" where
  "plain_names bucket pre =
     (CHR ''/'' \<notin> set bucket \<and> CHR ''%'' \<notin> set pre \<and> CHR ''+'' \<notin> set pre)"

section \<open>Example worlds\<close>

text \<open>
  A store with one note of user \<open>u1\<close>; a listing for \<open>u2/\<close> answers with a truncated
  page of unsupported files, any other listing with a final page of three entries.
\<close>

definition example_store :: world where
  "example_store =
     \<lparr>objects = [(''notes'', ''u1/a.txt'') \<mapsto>
                   \<lparr>obj_body = ''hello'', obj_type = ''text/plain'', obj_etag = ''v:hello''\<rparr>],
      etag_of = (\<lambda>c. ''v:'' @ c),
      lister = (\<lambda>b p m t.
        if p = ''u2/''
        then Inr \<lparr>Contents = [\<lparr>Key = ''u2/pic.png'', LastModified = 1, ETag = ''v:1''\<rparr>,
                              \<lparr>Key = ''u2/doc.pdf'', LastModified = 2, ETag = ''v:2''\<rparr>],
                  IsTruncated = True, NextContinuationToken = Some ''t1''\<rparr>
        else Inr \<lparr>Contents = [\<lparr>Key = ''u1/a.txt'', LastModified = 1, ETag = ''v:hello''\<rparr>,
                              \<lparr>Key = ''u1/pic.png'', LastModified = 2, ETag = ''v:2''\<rparr>,
                              \<lparr>Key = ''u1/sub/b.md'', LastModified = 3, ETag = ''v:3''\<rparr>],
                  IsTruncated = False, NextContinuationToken = None\<rparr>),
      delete_reports_missing = False,
      pending = [],
      calls = []\<rparr>"

text \<open>The same store, where the fifth interaction with the environment fails.\<close>

definition example_store_failing_fifth :: world where
  "example_store_failing_fifth =
     example_store\<lparr>pending := [None, None, None, None, Some OtherError]\<rparr>"




section \<open>Supporting lemmas\<close>


lemma next_fault_fields:
  "next_fault w = (f, w') \<Longrightarrow>
     objects w' = objects w \<and> calls w' = calls w \<and> etag_of w' = etag_of w \<and>
     lister w' = lister w \<and> delete_reports_missing w' = delete_reports_missing w \<and>
     pending w' = drop 1 (pending w)"
  by (auto simp: next_fault_def split: list.splits)

lemma send_fields:
  "send rq w = (f, w') \<Longrightarrow>
     objects w' = objects w \<and> calls w' = calls w @ [rq] \<and> etag_of w' = etag_of w \<and>
     lister w' = lister w \<and> delete_reports_missing w' = delete_reports_missing w \<and>
     pending w' = drop 1 (pending w)"
  by (auto simp: send_def dest!: next_fault_fields)

lemma healthy_calls [simp]: "healthy n (w\<lparr>calls := cs\<rparr>) = healthy n w"
  by (simp add: healthy_def)

lemma healthy_objects [simp]: "healthy n (w\<lparr>objects := os\<rparr>) = healthy n w"
  by (simp add: healthy_def)

lemma healthy_next_fault:
  "healthy (Suc n) w \<Longrightarrow> \<exists>w'. next_fault w = (None, w') \<and> healthy n w' \<and> 
     w' = w\<lparr>pending := drop 1 (pending w)\<rparr>"
  by (cases "pending w") (auto simp: healthy_def next_fault_def)

lemma healthy_send:
  "healthy (Suc n) w \<Longrightarrow> \<exists>w'. send rq w = (None, w') \<and> healthy n w' \<and> 
     w' = w\<lparr>calls := calls w @ [rq], pending := drop 1 (pending w)\<rparr>"
  by (cases "pending w") (auto simp: healthy_def next_fault_def send_def)

lemma saveFileContent_healthy:
  assumes "healthy (Suc (Suc n)) w"
  shows "saveFileContent bucket pre fileName content overwrite w =
     (if \<not> overwrite \<and> objects w (bucket, pre @ fileName) \<noteq> None
      then (Inl ErrAlreadyExists,
            w\<lparr>calls := calls w @ [PutObject bucket (pre @ fileName)
                  (if isMarkdown fileName then ''text/markdown; charset=UTF-8'' else ''text/plain'')
                  content (if overwrite then None else Some ''*'')],
              pending := drop 2 (pending w)\<rparr>)
      else (Inr \<lparr>save_ETag = etag_of w content\<rparr>,
            w\<lparr>calls := calls w @ [PutObject bucket (pre @ fileName)
                  (if isMarkdown fileName then ''text/markdown; charset=UTF-8'' else ''text/plain'')
                  content (if overwrite then None else Some ''*'')],
              pending := drop 2 (pending w),
              objects := (objects w)((bucket, pre @ fileName) \<mapsto>
                 \<lparr>obj_body = content,
                  obj_type = (if isMarkdown fileName then ''text/markdown; charset=UTF-8'' else ''text/plain''),
                  obj_etag = etag_of w content\<rparr>)\<rparr>))"
proof -
  from healthy_next_fault[OF assms] obtain w1 where
    w1: "next_fault w = (None, w1)" "healthy (Suc n) w1" "w1 = w\<lparr>pending := drop 1 (pending w)\<rparr>"
    by blast
  from healthy_send[OF w1(2)] obtain w2 where
    w2: "send (PutObject bucket (pre @ fileName)
                  (if isMarkdown fileName then ''text/markdown; charset=UTF-8'' else ''text/plain'')
                  content (if overwrite then None else Some ''*'')) w1 = (None, w2)"
        "w2 = w1\<lparr>calls := calls w1 @ [PutObject bucket (pre @ fileName)
                  (if isMarkdown fileName then ''text/markdown; charset=UTF-8'' else ''text/plain'')
                  content (if overwrite then None else Some ''*'')], pending := drop 1 (pending w1)\<rparr>"
    by blast
  show ?thesis
    using w1(1) w2(1)
    by (simp add: saveFileContent_def LoadDefaultConfig_def s3_PutObject_def logAndReturnError_def Let_def
          w2(2) w1(3) drop_Suc numeral_2_eq_2 split: if_splits)
qed


lemma s3_PutObject_effect:
  assumes "s3_PutObject b k t body inm w = (res, w')"
  shows "calls w' = calls w @ [PutObject b k t body inm] \<and> etag_of w' = etag_of w \<and>
         delete_reports_missing w' = delete_reports_missing w \<and>
         (case res of
            Inl e \<Rightarrow> objects w' = objects w
          | Inr etag \<Rightarrow> etag = etag_of w body \<and>
              objects w' = (objects w)((b, k) \<mapsto> \<lparr>obj_body = body, obj_type = t, obj_etag = etag\<rparr>))"
proof -
  obtain f w1 where s: "send (PutObject b k t body inm) w = (f, w1)"
    by (cases "send (PutObject b k t body inm) w")
  from send_fields[OF s] assms s show ?thesis
    by (auto simp: s3_PutObject_def split: option.splits if_splits)
qed

lemma LoadDefaultConfig_fields:
  "LoadDefaultConfig w = (f, w') \<Longrightarrow>
     objects w' = objects w \<and> calls w' = calls w \<and> etag_of w' = etag_of w \<and>
     lister w' = lister w \<and> delete_reports_missing w' = delete_reports_missing w"
  by (auto simp: LoadDefaultConfig_def dest: next_fault_fields)

lemma saveFileContent_effect:
  assumes "saveFileContent bucket pre fileName content overwrite w = (res, w')"
  shows "etag_of w' = etag_of w \<and> delete_reports_missing w' = delete_reports_missing w \<and>
     (case res of
        Inl e \<Rightarrow> objects w' = objects w \<and> (e = ErrAlreadyExists \<or> e = ErrServiceUnavailable) \<and>
          (calls w' = calls w \<or>
           calls w' = calls w @ [PutObject bucket (pre @ fileName)
               (if isMarkdown fileName then ''text/markdown; charset=UTF-8'' else ''text/plain'')
               content (if overwrite then None else Some ''*'')])
      | Inr r \<Rightarrow> save_ETag r = etag_of w content \<and>
          calls w' = calls w @ [PutObject bucket (pre @ fileName)
               (if isMarkdown fileName then ''text/markdown; charset=UTF-8'' else ''text/plain'')
               content (if overwrite then None else Some ''*'')] \<and>
          objects w' = (objects w)((bucket, pre @ fileName) \<mapsto>
             \<lparr>obj_body = content,
              obj_type = (if isMarkdown fileName then ''text/markdown; charset=UTF-8'' else ''text/plain''),
              obj_etag = save_ETag r\<rparr>))"
proof -
  obtain f w1 where c: "LoadDefaultConfig w = (f, w1)"
    by (cases "LoadDefaultConfig w")
  note c1 = LoadDefaultConfig_fields[OF c]
  show ?thesis
  proof (cases f)
    case (Some e)
    with assms c c1 show ?thesis
      by (auto simp: saveFileContent_def logAndReturnError_def)
  next
    case None
    obtain pr w2 where p: "s3_PutObject bucket (pre @ fileName)
               (if isMarkdown fileName then ''text/markdown; charset=UTF-8'' else ''text/plain'')
               content (if overwrite then None else Some ''*'') w1 = (pr, w2)"
      by (cases "s3_PutObject bucket (pre @ fileName)
               (if isMarkdown fileName then ''text/markdown; charset=UTF-8'' else ''text/plain'')
               content (if overwrite then None else Some ''*'') w1")
    note p1 = s3_PutObject_effect[OF p]
    from assms c None p have r: "res = (case pr of
         Inl err \<Rightarrow> if ErrorCodeIs err ''PreconditionFailed'' then Inl ErrAlreadyExists else Inl ErrServiceUnavailable
       | Inr etag \<Rightarrow> Inr \<lparr>save_ETag = etag\<rparr>)" and w': "w' = w2"
      by (auto simp: saveFileContent_def logAndReturnError_def Let_def split: sum.splits if_splits)
    from p1 c1 show ?thesis unfolding r w'
      by (cases pr) auto
  qed
qed



lemma s3_CopyObject_effect:
  assumes "s3_CopyObject b src k w = (res, w')"
  shows "calls w' = calls w @ [CopyObject b src k] \<and> etag_of w' = etag_of w \<and>
         delete_reports_missing w' = delete_reports_missing w \<and>
         (case res of
            Inl e \<Rightarrow> objects w' = objects w
          | Inr etag \<Rightarrow> (\<exists>origin obj. copy_source src = Some origin \<and> objects w origin = Some obj \<and>
              etag = etag_of w (obj_body obj) \<and>
              objects w' = (objects w)((b, k) \<mapsto> obj\<lparr>obj_etag := etag\<rparr>)))"
proof -
  obtain f w1 where s: "send (CopyObject b src k) w = (f, w1)"
    by (cases "send (CopyObject b src k) w")
  from send_fields[OF s] assms s show ?thesis
    by (auto simp: s3_CopyObject_def split: option.splits if_splits)
qed

lemma s3_DeleteObject_effect:
  assumes "s3_DeleteObject b k w = (res, w')"
  shows "calls w' = calls w @ [DeleteObject b k] \<and> etag_of w' = etag_of w \<and>
         delete_reports_missing w' = delete_reports_missing w \<and>
         (case res of
            Inl e \<Rightarrow> objects w' = objects w
          | Inr u \<Rightarrow> objects w' = (objects w)((b, k) := None))"
proof -
  obtain f w1 where s: "send (DeleteObject b k) w = (f, w1)"
    by (cases "send (DeleteObject b k) w")
  from send_fields[OF s] assms s show ?thesis
    by (auto simp: s3_DeleteObject_def split: option.splits if_splits)
qed

lemma renameFile_cases:
  assumes "renameFile bucket pre fileName newFileName w = (res, w')"
  obtains
    (config) e where "LoadDefaultConfig w = (Some e, w')" "res = Inl ErrServiceUnavailable"
  | (reserve) w1 err where "LoadDefaultConfig w = (None, w1)"
      "saveFileContent bucket pre newFileName [] False w1 = (Inl err, w')" "res = Inl err"
  | (copy) w1 s w2 err where "LoadDefaultConfig w = (None, w1)"
      "saveFileContent bucket pre newFileName [] False w1 = (Inr s, w2)"
      "s3_CopyObject bucket (rename_source bucket pre fileName) (pre @ newFileName) w2 = (Inl err, w')"
      "res = Inl (if ErrorCodeIs err ''NoSuchKey'' then ErrNotFound else ErrServiceUnavailable)"
  | (delete) w1 s w2 etag w3 err where "LoadDefaultConfig w = (None, w1)"
      "saveFileContent bucket pre newFileName [] False w1 = (Inr s, w2)"
      "s3_CopyObject bucket (rename_source bucket pre fileName) (pre @ newFileName) w2 = (Inr etag, w3)"
      "s3_DeleteObject bucket (rename_key pre fileName) w3 = (Inl err, w')"
      "res = Inl ErrServiceUnavailable"
  | (success) w1 s w2 etag w3 where "LoadDefaultConfig w = (None, w1)"
      "saveFileContent bucket pre newFileName [] False w1 = (Inr s, w2)"
      "s3_CopyObject bucket (rename_source bucket pre fileName) (pre @ newFileName) w2 = (Inr etag, w3)"
      "s3_DeleteObject bucket (rename_key pre fileName) w3 = (Inr (), w')"
      "res = Inr \<lparr>rename_ETag = etag\<rparr>"
  using assms
  by (auto simp: renameFile_def logAndReturnError_def Let_def
           split: prod.splits option.splits sum.splits if_splits)

subsection \<open>URL escaping\<close>


lemma upperhex_char:
  "n \<in> {0, 1, 2, 3, 4, 5, 6, 7, 8, 9, 10, 11, 12, 13, 14, 15} \<Longrightarrow>
   ishex (upperhex ! n) \<and> unhex (upperhex ! n) = n"
  by (elim insertE emptyE; simp add: upperhex_def ishex_def unhex_def between_def)

lemma upperhex_digit:
  assumes "n < 16"
  shows "ishex (upperhex ! n) \<and> unhex (upperhex ! n) = n"
proof -
  from assms have "n \<in> {0, 1, 2, 3, 4, 5, 6, 7, 8, 9, 10, 11, 12, 13, 14, 15}"
    by simp arith
  then show ?thesis by (rule upperhex_char)
qed

lemma of_char_div_16: "(of_char c :: nat) div 16 < 16"
proof -
  have "(of_char c :: nat) < 256"
    by (metis of_char_mod_256 mod_less_divisor zero_less_numeral)
  then show ?thesis by arith
qed

lemma escaped_percent: "shouldEscape CHR ''%'' encodeQueryComponent"
  by (simp add: shouldEscape_def between_def)

lemma escaped_plus: "shouldEscape CHR ''+'' encodeQueryComponent"
  by (simp add: shouldEscape_def between_def)

lemma unescaped_char:
  "\<not> shouldEscape c encodeQueryComponent \<Longrightarrow> c \<noteq> CHR ''%'' \<and> c \<noteq> CHR ''+''"
  using escaped_percent escaped_plus by blast

lemma unescape_escape:
  "unescape (escape s encodeQueryComponent) encodeQueryComponent = Some s"
proof (induction s)
  case Nil
  show ?case by simp
next
  case (Cons c s)
  show ?case
  proof (cases "c = CHR '' ''")
    case True
    with Cons show ?thesis by simp
  next
    case space: False
    show ?thesis
    proof (cases "shouldEscape c encodeQueryComponent")
      case True
      have hi: "ishex (upperhex ! (of_char c div 16))" "unhex (upperhex ! (of_char c div 16)) = of_char c div 16"
        using upperhex_digit[OF of_char_div_16[of c]] by simp_all
      have lo: "ishex (upperhex ! (of_char c mod 16))" "unhex (upperhex ! (of_char c mod 16)) = of_char c mod 16"
        using upperhex_digit[of "of_char c mod 16"] by simp_all
      from True space Cons show ?thesis
        by (simp add: hi lo)
    next
      case False
      with unescaped_char[OF False] space Cons show ?thesis by simp
    qed
  qed
qed

lemma QueryUnescape_QueryEscape: "QueryUnescape (QueryEscape s) = Some s"
  by (simp add: QueryUnescape_def QueryEscape_def unescape_escape)

lemma unescape_plain_prefix:
  "CHR ''%'' \<notin> set p \<Longrightarrow> CHR ''+'' \<notin> set p \<Longrightarrow>
   unescape (p @ s) mode = map_option ((@) p) (unescape s mode)"
  by (induction p) (cases "unescape s mode"; auto)+

lemma takeWhile_upto:
  "c \<notin> set xs \<Longrightarrow> takeWhile (\<lambda>x. x \<noteq> c) (xs @ c # ys) = xs"
  by (induction xs) auto

lemma dropWhile_upto:
  "c \<notin> set xs \<Longrightarrow> dropWhile (\<lambda>x. x \<noteq> c) (xs @ c # ys) = c # ys"
  by (induction xs) auto

lemma copy_source_rename_source:
  assumes "plain_names bucket pre"
  shows "copy_source (rename_source bucket pre fileName) = Some (bucket, rename_key pre fileName)"
proof -
  from assms have b: "CHR ''/'' \<notin> set bucket" and p: "CHR ''%'' \<notin> set pre" "CHR ''+'' \<notin> set pre"
    by (simp_all add: plain_names_def)
  have t: "takeWhile (\<lambda>c. c \<noteq> CHR ''/'') (bucket @ ''/'' @ pre @ QueryEscape fileName) = bucket"
    using b by (simp add: takeWhile_upto)
  have d: "dropWhile (\<lambda>c. c \<noteq> CHR ''/'') (bucket @ ''/'' @ pre @ QueryEscape fileName)
             = ''/'' @ pre @ QueryEscape fileName"
    using b by (simp add: dropWhile_upto)
  have "QueryUnescape (pre @ QueryEscape fileName) = Some (pre @ fileName)"
    using unescape_plain_prefix[OF p] QueryUnescape_QueryEscape[of fileName]
    by (simp add: QueryUnescape_def)
  with t d show ?thesis
    by (simp add: copy_source_def rename_source_def rename_key_def)
qed

subsection \<open>The steps of a rename\<close>


lemma rename_reached_delete:
  assumes "LoadDefaultConfig w = (None, w1)"
    and "saveFileContent bucket pre newFileName [] False w1 = (Inr s, w2)"
    and "s3_CopyObject bucket (rename_source bucket pre fileName) (pre @ newFileName) w2 = (Inr etag, w3)"
    and "s3_DeleteObject bucket (rename_key pre fileName) w3 = (dr, w4)"
  shows "renameFile bucket pre fileName newFileName w =
           (case dr of Inl err \<Rightarrow> Inl ErrServiceUnavailable | Inr u \<Rightarrow> Inr \<lparr>rename_ETag = etag\<rparr>, w4)"
    and "calls w4 = calls w @ rename_steps bucket pre fileName newFileName"
proof -
  show "renameFile bucket pre fileName newFileName w =
           (case dr of Inl err \<Rightarrow> Inl ErrServiceUnavailable | Inr u \<Rightarrow> Inr \<lparr>rename_ETag = etag\<rparr>, w4)"
    using assms by (simp add: renameFile_def logAndReturnError_def Let_def split: sum.splits)
  from LoadDefaultConfig_fields[OF assms(1)] saveFileContent_effect[OF assms(2)]
    s3_CopyObject_effect[OF assms(3)] s3_DeleteObject_effect[OF assms(4)]
  show "calls w4 = calls w @ rename_steps bucket pre fileName newFileName"
    by (auto simp: rename_steps_def)
qed

subsection \<open>Evaluation of the examples\<close>

lemmas eval_world =
  LoadDefaultConfig_def ReadAll_def next_fault_def send_def healthy_def new_calls_def
  s3_PutObject_def s3_GetObject_def s3_CopyObject_def s3_DeleteObject_def s3_ListObjectsV2_def
  logAndReturnError_def Let_def

lemmas eval_strings =
  HasSuffix_def HasPrefix_def CutPrefix_def isMarkdown_def isSupportedFileType_def
  isFileNameValid_def

lemmas eval_url =
  QueryEscape_def QueryUnescape_def PathUnescape_def shouldEscape_def between_def upperhex_def
  ishex_def unhex_def copy_source_def rename_source_def rename_key_def

lemma rename_a_b:
  "renameFile ''notes'' ''u1/'' ''a.txt'' ''b.txt'' example_store =
    (Inr \<lparr>rename_ETag = ''v:hello''\<rparr>,
     example_store\<lparr>calls := rename_steps ''notes'' ''u1/'' ''a.txt'' ''b.txt'',
       objects := [(''notes'', ''u1/b.txt'') \<mapsto>
                   \<lparr>obj_body = ''hello'', obj_type = ''text/plain'', obj_etag = ''v:hello''\<rparr>]\<rparr>)"
  by (simp add: renameFile_def saveFileContent_def eval_world eval_strings eval_url
        example_store_def rename_steps_def fun_eq_iff)

lemma reserve_b:
  "saveFileContent ''notes'' ''u1/'' ''b.txt'' [] False example_store =
    (Inr \<lparr>save_ETag = ''v:''\<rparr>,
     example_store\<lparr>calls := [PutObject ''notes'' ''u1/b.txt'' ''text/plain'' [] (Some ''*'')],
       objects := (objects example_store)((''notes'', ''u1/b.txt'') \<mapsto>
                   \<lparr>obj_body = [], obj_type = ''text/plain'', obj_etag = ''v:''\<rparr>)\<rparr>)"
  by (simp add: saveFileContent_def eval_world eval_strings example_store_def)

subsection \<open>Runs in which the environment does not fail\<close>

lemma healthy_after:
  "healthy (m + n) w \<Longrightarrow> pending w' = drop m (pending w) \<Longrightarrow> healthy n w'"
  by (simp add: healthy_def take_add)

lemma LoadDefaultConfig_healthy:
  "healthy (Suc n) w \<Longrightarrow> LoadDefaultConfig w = (None, w\<lparr>pending := drop 1 (pending w)\<rparr>)"
  using healthy_next_fault[of n w] by (auto simp: LoadDefaultConfig_def)

lemma ReadAll_healthy:
  "healthy (Suc n) w \<Longrightarrow> ReadAll w = (None, w\<lparr>pending := drop 1 (pending w)\<rparr>)"
  using healthy_next_fault[of n w] by (auto simp: ReadAll_def)

lemma send_healthy:
  "healthy (Suc n) w \<Longrightarrow>
   send rq w = (None, w\<lparr>calls := calls w @ [rq], pending := drop 1 (pending w)\<rparr>)"
  using healthy_send[of n w rq] by auto

lemma s3_GetObject_healthy:
  "healthy (Suc n) w \<Longrightarrow>
   s3_GetObject bucket key ifNoneMatch w =
     (case objects w (bucket, key) of
        None \<Rightarrow> Inl (APIError ''NoSuchKey'')
      | Some obj \<Rightarrow>
          if ifNoneMatch = Some (obj_etag obj) then Inl (APIError ''NotModified'')
          else Inr \<lparr>out_Body = obj_body obj, out_ETag = obj_etag obj\<rparr>,
      w\<lparr>calls := calls w @ [GetObject bucket key ifNoneMatch], pending := drop 1 (pending w)\<rparr>)"
  by (simp add: s3_GetObject_def send_healthy split: option.splits)

lemma s3_CopyObject_healthy:
  "healthy (Suc n) w \<Longrightarrow>
   s3_CopyObject bucket src key w =
     (case copy_source src of
        None \<Rightarrow> (Inl (APIError ''InvalidArgument''),
          w\<lparr>calls := calls w @ [CopyObject bucket src key], pending := drop 1 (pending w)\<rparr>)
      | Some origin \<Rightarrow>
          (case objects w origin of
             None \<Rightarrow> (Inl (APIError ''NoSuchKey''),
               w\<lparr>calls := calls w @ [CopyObject bucket src key], pending := drop 1 (pending w)\<rparr>)
           | Some obj \<Rightarrow> (Inr (etag_of w (obj_body obj)),
               w\<lparr>calls := calls w @ [CopyObject bucket src key], pending := drop 1 (pending w),
                 objects := (objects w)((bucket, key) \<mapsto>
                    obj\<lparr>obj_etag := etag_of w (obj_body obj)\<rparr>)\<rparr>)))"
  by (simp add: s3_CopyObject_def send_healthy split: option.splits)


lemma getFileContent_healthy:
  assumes "healthy (Suc (Suc (Suc n))) w"
  shows "getFileContent bucket pre fileName etag w =
     (case objects w (bucket, pre @ fileName) of
        None \<Rightarrow> (Inl ErrNotFound,
          w\<lparr>calls := calls w @ [GetObject bucket (pre @ fileName) (if etag \<noteq> [] then Some etag else None)],
            pending := drop 2 (pending w)\<rparr>)
      | Some obj \<Rightarrow>
          if etag \<noteq> [] \<and> etag = obj_etag obj
          then (Inl ErrNotModified,
            w\<lparr>calls := calls w @ [GetObject bucket (pre @ fileName) (if etag \<noteq> [] then Some etag else None)],
              pending := drop 2 (pending w)\<rparr>)
          else (Inr \<lparr>Content = obj_body obj, get_ETag = obj_etag obj\<rparr>,
            w\<lparr>calls := calls w @ [GetObject bucket (pre @ fileName) (if etag \<noteq> [] then Some etag else None)],
              pending := drop 3 (pending w)\<rparr>))"
proof -
  let ?rq = "GetObject bucket (pre @ fileName) (if etag \<noteq> [] then Some etag else None)"
  obtain w1 where c: "LoadDefaultConfig w = (None, w1)"
    and w1: "w1 = w\<lparr>pending := drop 1 (pending w)\<rparr>"
    using LoadDefaultConfig_healthy[OF assms] by blast
  have h1: "healthy (Suc (Suc n)) w1"
    using healthy_after[of 1 "Suc (Suc n)" w w1] assms w1 by simp
  obtain gr w2 where g: "s3_GetObject bucket (pre @ fileName) (if etag \<noteq> [] then Some etag else None) w1 = (gr, w2)"
    and gr: "gr = (case objects w1 (bucket, pre @ fileName) of
        None \<Rightarrow> Inl (APIError ''NoSuchKey'')
      | Some obj \<Rightarrow>
          if (if etag \<noteq> [] then Some etag else None) = Some (obj_etag obj) then Inl (APIError ''NotModified'')
          else Inr \<lparr>out_Body = obj_body obj, out_ETag = obj_etag obj\<rparr>)"
    and w2: "w2 = w1\<lparr>calls := calls w1 @ [?rq], pending := drop 1 (pending w1)\<rparr>"
    using s3_GetObject_healthy[OF h1] by blast
  have h2: "healthy (Suc n) w2"
    using healthy_after[of 2 "Suc n" w w2] assms w1 w2 by (simp add: drop_Suc numeral_2_eq_2)
  obtain w3 where r: "ReadAll w2 = (None, w3)" and w3: "w3 = w2\<lparr>pending := drop 1 (pending w2)\<rparr>"
    using ReadAll_healthy[OF h2] by blast
  have "getFileContent bucket pre fileName etag w =
     (case gr of
        Inl err \<Rightarrow> (if ErrorCodeIs err ''NoSuchKey'' then Inl ErrNotFound
                    else if ErrorCodeIs err ''NotModified'' then Inl ErrNotModified
                    else Inl ErrServiceUnavailable, w2)
      | Inr output \<Rightarrow> (Inr \<lparr>Content = out_Body output, get_ETag = out_ETag output\<rparr>, w3))"
    by (simp add: getFileContent_def c g r logAndReturnError_def Let_def split: sum.splits)
  then show ?thesis
    by (simp add: gr w1 w2 w3 drop_Suc numeral_2_eq_2 numeral_3_eq_3 split: option.splits)
qed




subsection \<open>Strings and the listing\<close>

lemma HasPrefix_iff: "HasPrefix s pre \<longleftrightarrow> (\<exists>r. s = pre @ r)"
proof
  assume "HasPrefix s pre"
  then have "s = pre @ drop (length pre) s"
    by (metis HasPrefix_def append_take_drop_id)
  then show "\<exists>r. s = pre @ r" ..
next
  assume "\<exists>r. s = pre @ r"
  then show "HasPrefix s pre"
    by (auto simp: HasPrefix_def)
qed

lemma Contains_iff: "Contains s substr \<longleftrightarrow> (\<exists>ps ss. s = ps @ substr @ ss)"
proof (induction s)
  case Nil
  show ?case by auto
next
  case (Cons c cs)
  show ?case
  proof
    assume "Contains (c # cs) substr"
    then consider "HasPrefix (c # cs) substr" | "Contains cs substr" by auto
    then show "\<exists>ps ss. c # cs = ps @ substr @ ss"
    proof cases
      case 1
      then obtain r where "c # cs = [] @ substr @ r"
        by (auto simp: HasPrefix_iff)
      then show ?thesis by blast
    next
      case 2
      with Cons obtain ps ss where "cs = ps @ substr @ ss" by blast
      then have "c # cs = (c # ps) @ substr @ ss" by simp
      then show ?thesis by blast
    qed
  next
    assume "\<exists>ps ss. c # cs = ps @ substr @ ss"
    then obtain ps ss where e: "c # cs = ps @ substr @ ss" by blast
    show "Contains (c # cs) substr"
    proof (cases ps)
      case Nil
      with e have "HasPrefix (c # cs) substr"
        by (auto simp: HasPrefix_iff)
      then show ?thesis by simp
    next
      case (Cons p ps')
      with e have "cs = ps' @ substr @ ss" by simp
      with Cons.IH show ?thesis by auto
    qed
  qed
qed

lemma Contains_char: "Contains s [c] \<longleftrightarrow> c \<in> set s"
  by (auto simp: Contains_iff in_set_conv_decomp)

lemma Contains_longer: "Contains s (u @ v) \<Longrightarrow> Contains s v"
proof -
  assume "Contains s (u @ v)"
  then obtain ps ss where "s = ps @ (u @ v) @ ss"
    by (auto simp: Contains_iff)
  then have "s = (ps @ u) @ v @ ss" by simp
  then show ?thesis unfolding Contains_iff by blast
qed

lemma isFileNameValid_title:
  assumes "isFileNameValid t"
  shows "(HasSuffix t ''.txt'' \<or> HasSuffix t ''.md'') \<and> \<not> Contains t ''/'' \<and>
         \<not> Contains t (userId @ ''/'')"
  using assms Contains_longer[of t userId "''/''"]
  by (auto simp: isFileNameValid_def)

lemma packFiles_member:
  "file \<in> set (packFiles fs) \<Longrightarrow>
   \<exists>f \<in> set fs. isFileNameValid (FileName f) \<and> out_FileName file = FileName f \<and>
      out_LastModified file = file_LastModified f \<and> out_FileETag file = file_ETag f"
  by (induction fs) (auto split: if_splits)

lemma processContents_member:
  "f \<in> set (processContents pre cs) \<Longrightarrow>
   \<exists>obj \<in> set cs. isSupportedFileType (Key obj) \<and> FileName f = fst (CutPrefix (Key obj) pre) \<and>
      file_LastModified f = LastModified obj \<and> file_ETag f = ETag obj"
  by (induction cs) (auto split: if_splits)

lemma processContents_length:
  "length (processContents pre cs) = length (filter (\<lambda>obj. isSupportedFileType (Key obj)) cs)"
  by (induction cs) auto

lemma CutPrefix_strips:
  "HasPrefix key pre \<Longrightarrow> key = pre @ fst (CutPrefix key pre)"
  by (auto simp: CutPrefix_def HasPrefix_iff)

lemma listFiles_success:
  assumes "listFiles bucket pre pageSize continuationToken w = (Inr result, w')"
  shows "\<exists>page.
     lister w bucket pre (int32 pageSize)
       (if continuationToken \<noteq> [] then Some continuationToken else None) = Inr page \<and>
     calls w' = calls w @ [ListObjectsV2 bucket pre (int32 pageSize)
       (if continuationToken \<noteq> [] then Some continuationToken else None)] \<and>
     lister w' = lister w \<and>
     result = \<lparr>Files = processContents pre (Contents page), HasMore = IsTruncated page,
                list_NextContinuationToken =
                  (case NextContinuationToken page of None \<Rightarrow> [] | Some t \<Rightarrow> t)\<rparr>"
proof -
  let ?tok = "if continuationToken \<noteq> [] then Some continuationToken else None"
  obtain f w1 where c: "LoadDefaultConfig w = (f, w1)"
    by (cases "LoadDefaultConfig w")
  note c1 = LoadDefaultConfig_fields[OF c]
  obtain g w2 where s: "send (ListObjectsV2 bucket pre (int32 pageSize) ?tok) w1 = (g, w2)"
    by (cases "send (ListObjectsV2 bucket pre (int32 pageSize) ?tok) w1")
  note s1 = send_fields[OF s]
  from assms c s have "f = None" "g = None" "w' = w2"
    and "\<exists>page. lister w2 bucket pre (int32 pageSize) ?tok = Inr page \<and>
       result = \<lparr>Files = processContents pre (Contents page), HasMore = IsTruncated page,
                list_NextContinuationToken =
                  (case NextContinuationToken page of None \<Rightarrow> [] | Some t \<Rightarrow> t)\<rparr>"
    by (auto simp: listFiles_def s3_ListObjectsV2_def Let_def
             split: option.splits sum.splits if_splits)
  with c1 s1 show ?thesis by auto
qed

lemma handleGetFiles_success:
  assumes "handleGetFiles bucket userId query w = (Success out, w')"
  shows "\<exists>pageSize token result.
     listFiles bucket (userId @ ''/'') pageSize token w = (Inr result, w') \<and>
     out = \<lparr>out_Files = packFiles (Files result), out_HasMore = HasMore result,
            out_NextContinuationToken = QueryEscape (list_NextContinuationToken result)\<rparr>"
  using assms
  by (auto simp: handleGetFiles_def Let_def split: option.splits if_splits prod.splits sum.splits)

lemma list_u2:
  "listFiles ''notes'' ''u2/'' 2 [] example_store =
     (Inr \<lparr>Files = [], HasMore = True, list_NextContinuationToken = ''t1''\<rparr>,
      example_store\<lparr>calls := [ListObjectsV2 ''notes'' ''u2/'' 2 None]\<rparr>)"
  by (simp add: listFiles_def eval_world eval_strings example_store_def int32_def)

lemma list_u1:
  "listFiles ''notes'' ''u1/'' 100 [] example_store =
     (Inr \<lparr>Files = [\<lparr>FileName = ''a.txt'', file_LastModified = 1, file_ETag = ''v:hello''\<rparr>,
                     \<lparr>FileName = ''sub/b.md'', file_LastModified = 3, file_ETag = ''v:3''\<rparr>],
           HasMore = False, list_NextContinuationToken = []\<rparr>,
      example_store\<lparr>calls := [ListObjectsV2 ''notes'' ''u1/'' 100 None]\<rparr>)"
  by (simp add: listFiles_def eval_world eval_strings example_store_def int32_def)

lemma get_files_u1:
  "handleGetFiles ''notes'' ''u1'' (Some \<lparr>PageSize = 0, ContinuationToken = []\<rparr>) example_store =
     (Success \<lparr>out_Files = [\<lparr>out_FileName = ''a.txt'', out_LastModified = 1, out_FileETag = ''v:hello''\<rparr>],
               out_HasMore = False, out_NextContinuationToken = []\<rparr>,
      example_store\<lparr>calls := [ListObjectsV2 ''notes'' ''u1/'' 100 None]\<rparr>)"
  by (simp add: handleGetFiles_def isPageSizeValid_def isContinuationTokenValid_def
        PAGE_SIZE_DEFAULT_def PathUnescape_def QueryEscape_def list_u1 eval_strings)



lemma processContents_map_filter:
  "processContents pre cs =
     map (\<lambda>obj. \<lparr>FileName = fst (CutPrefix (Key obj) pre),
                  file_LastModified = LastModified obj, file_ETag = ETag obj\<rparr>)
         (filter (\<lambda>obj. isSupportedFileType (Key obj)) cs)"
  by (induction cs) auto

lemma packFiles_map_filter:
  "packFiles fs =
     map (\<lambda>f. \<lparr>out_FileName = FileName f, out_LastModified = file_LastModified f,
                out_FileETag = file_ETag f\<rparr>)
         (filter (\<lambda>f. isFileNameValid (FileName f)) fs)"
  by (induction fs) auto

lemma listFiles_healthy:
  assumes "healthy (Suc (Suc n)) w"
  shows "listFiles bucket pre pageSize continuationToken w =
     (case lister w bucket pre (int32 pageSize)
             (if continuationToken \<noteq> [] then Some continuationToken else None) of
        Inl err \<Rightarrow>
          Inl (if ErrorCodeIs err ''InvalidArgument'' then ErrInvalidArgument
               else ErrServiceUnavailable)
      | Inr page \<Rightarrow>
          Inr \<lparr>Files = processContents pre (Contents page), HasMore = IsTruncated page,
                list_NextContinuationToken =
                  (case NextContinuationToken page of None \<Rightarrow> [] | Some t \<Rightarrow> t)\<rparr>,
      w\<lparr>calls := calls w @ [ListObjectsV2 bucket pre (int32 pageSize)
             (if continuationToken \<noteq> [] then Some continuationToken else None)],
        pending := drop 2 (pending w)\<rparr>)"
proof -
  let ?tok = "if continuationToken \<noteq> [] then Some continuationToken else None"
  obtain w1 where c: "LoadDefaultConfig w = (None, w1)"
    and w1: "w1 = w\<lparr>pending := drop 1 (pending w)\<rparr>"
    using LoadDefaultConfig_healthy[OF assms] by blast
  have h1: "healthy (Suc n) w1"
    using healthy_after[of 1 "Suc n" w w1] assms w1 by simp
  obtain w2 where s: "send (ListObjectsV2 bucket pre (int32 pageSize) ?tok) w1 = (None, w2)"
    and w2: "w2 = w1\<lparr>calls := calls w1 @ [ListObjectsV2 bucket pre (int32 pageSize) ?tok],
                     pending := drop 1 (pending w1)\<rparr>"
    using send_healthy[OF h1] by blast
  have "listFiles bucket pre pageSize continuationToken w =
     (case lister w2 bucket pre (int32 pageSize) ?tok of
        Inl err \<Rightarrow>
          Inl (if ErrorCodeIs err ''InvalidArgument'' then ErrInvalidArgument
               else ErrServiceUnavailable)
      | Inr page \<Rightarrow>
          Inr \<lparr>Files = processContents pre (Contents page), HasMore = IsTruncated page,
                list_NextContinuationToken =
                  (case NextContinuationToken page of None \<Rightarrow> [] | Some t \<Rightarrow> t)\<rparr>,
      w2)"
    by (simp add: listFiles_def c s3_ListObjectsV2_def s logAndReturnError_def Let_def
          split: sum.splits)
  then show ?thesis
    by (simp add: w1 w2 drop_Suc numeral_2_eq_2)
qed

lemma HasSuffix_iff: "HasSuffix s suffix \<longleftrightarrow> (\<exists>r. s = r @ suffix)"
proof
  assume "HasSuffix s suffix"
  then have "s = take (length s - length suffix) s @ suffix"
    by (metis HasSuffix_def append_take_drop_id)
  then show "\<exists>r. s = r @ suffix" ..
next
  assume "\<exists>r. s = r @ suffix"
  then show "HasSuffix s suffix"
    by (auto simp: HasSuffix_def)
qed

lemma HasSuffix_after_prefix:
  assumes "HasSuffix (pre @ t) suffix" and "pre = [] \<or> last pre \<notin> set suffix"
  shows "HasSuffix t suffix"
proof -
  from assms(1) obtain r where "pre @ t = r @ suffix"
    by (auto simp: HasSuffix_iff)
  then obtain us where "(pre = r @ us \<and> us @ t = suffix) \<or> (pre @ us = r \<and> t = us @ suffix)"
    by (auto simp: append_eq_append_conv2)
  then show ?thesis
  proof
    assume a: "pre = r @ us \<and> us @ t = suffix"
    show ?thesis
    proof (cases "us = []")
      case True
      with a show ?thesis by (auto simp: HasSuffix_iff)
    next
      case False
      with a have "last pre = last us" "last us \<in> set us" by simp_all
      with a have "pre \<noteq> []" "last pre \<in> set suffix" using False by auto
      with assms(2) show ?thesis by simp
    qed
  next
    assume "pre @ us = r \<and> t = us @ suffix"
    then show ?thesis by (auto simp: HasSuffix_iff)
  qed
qed

lemma title_suffix:
  assumes "isSupportedFileType key" and "pre = [] \<or> last pre = CHR ''/''"
  shows "isSupportedFileType (fst (CutPrefix key pre))"
proof (cases "HasPrefix key pre")
  case False
  with assms(1) show ?thesis by (simp add: CutPrefix_def)
next
  case True
  then obtain t where k: "key = pre @ t" and t: "fst (CutPrefix key pre) = t"
    by (auto simp: HasPrefix_iff CutPrefix_def)
  from assms(2) have "pre = [] \<or> last pre \<notin> set ''.txt''" "pre = [] \<or> last pre \<notin> set ''.md''"
    by auto
  with assms(1) k show ?thesis
    unfolding t isSupportedFileType_def
    using HasSuffix_after_prefix[of pre t "''.txt''"] HasSuffix_after_prefix[of pre t "''.md''"]
    by blast
qed







section \<open>Properties of the adapter\<close>

subsection \<open>Rename: the protocol\<close>

text \<open>
  Claim C1, amended. A rename sends its store requests in a fixed order: a create-only
  empty put at the target key, a copy of the source onto the target key, a delete of the
  source key; each is sent at most once, and the call stops at the first step that fails
  and returns there:
  \<^item> when the configuration does not load, nothing is sent;
  \<^item> when the reservation fails, the call ends in the reservation's world with its
    error, having sent the put at most (the put, unless the reservation's own
    configuration did not load);
  \<^item> when the copy fails, the call ends in the copy's world, having sent the put and
    the copy;
  \<^item> when the copy succeeds, the delete is sent, and the call ends in its world,
    having sent exactly the three requests.
  On full success the call returns the fingerprint that the copy step produced. (Not
  every rename call executes three steps: a rename onto an existing target sends one
  request only.)
\<close>

theorem renameFile_protocol:
  assumes "renameFile bucket pre fileName newFileName w = (res, w')"
  shows
   "(\<forall>e w1. LoadDefaultConfig w = (Some e, w1) \<longrightarrow>
       res = Inl ErrServiceUnavailable \<and> w' = w1 \<and> new_calls w w' = []) \<and>
    (\<forall>w1 err w2.
       LoadDefaultConfig w = (None, w1) \<and>
       saveFileContent bucket pre newFileName [] False w1 = (Inl err, w2) \<longrightarrow>
       res = Inl err \<and> w' = w2 \<and>
       new_calls w w' =
         (if fst (LoadDefaultConfig w1) = None
          then take 1 (rename_steps bucket pre fileName newFileName) else [])) \<and>
    (\<forall>w1 s w2 err w3.
       LoadDefaultConfig w = (None, w1) \<and>
       saveFileContent bucket pre newFileName [] False w1 = (Inr s, w2) \<and>
       s3_CopyObject bucket (rename_source bucket pre fileName) (pre @ newFileName) w2
         = (Inl err, w3) \<longrightarrow>
       res = Inl (if ErrorCodeIs err ''NoSuchKey'' then ErrNotFound else ErrServiceUnavailable) \<and>
       w' = w3 \<and>
       new_calls w w' = take 2 (rename_steps bucket pre fileName newFileName)) \<and>
    (\<forall>w1 s w2 etag w3 err w4.
       LoadDefaultConfig w = (None, w1) \<and>
       saveFileContent bucket pre newFileName [] False w1 = (Inr s, w2) \<and>
       s3_CopyObject bucket (rename_source bucket pre fileName) (pre @ newFileName) w2
         = (Inr etag, w3) \<and>
       s3_DeleteObject bucket (rename_key pre fileName) w3 = (Inl err, w4) \<longrightarrow>
       res = Inl ErrServiceUnavailable \<and> w' = w4 \<and>
       new_calls w w' = rename_steps bucket pre fileName newFileName) \<and>
    (\<forall>w1 s w2 etag w3 w4.
       LoadDefaultConfig w = (None, w1) \<and>
       saveFileContent bucket pre newFileName [] False w1 = (Inr s, w2) \<and>
       s3_CopyObject bucket (rename_source bucket pre fileName) (pre @ newFileName) w2
         = (Inr etag, w3) \<and>
       s3_DeleteObject bucket (rename_key pre fileName) w3 = (Inr (), w4) \<longrightarrow>
       res = Inr \<lparr>rename_ETag = etag\<rparr> \<and> w' = w4 \<and>
       new_calls w w' = rename_steps bucket pre fileName newFileName) \<and>
    (\<forall>r. res = Inr r \<longrightarrow>
       (\<exists>w1 s w2 w3.
          LoadDefaultConfig w = (None, w1) \<and>
          saveFileContent bucket pre newFileName [] False w1 = (Inr s, w2) \<and>
          s3_CopyObject bucket (rename_source bucket pre fileName) (pre @ newFileName) w2
            = (Inr (rename_ETag r), w3) \<and>
          s3_DeleteObject bucket (rename_key pre fileName) w3 = (Inr (), w')))"
proof -
  have config: "\<forall>e w1. LoadDefaultConfig w = (Some e, w1) \<longrightarrow>
       res = Inl ErrServiceUnavailable \<and> w' = w1 \<and> new_calls w w' = []"
  proof (intro allI impI)
    fix e w1 assume a: "LoadDefaultConfig w = (Some e, w1)"
    with assms have r: "res = Inl ErrServiceUnavailable" "w' = w1"
      by (simp_all add: renameFile_def logAndReturnError_def)
    from LoadDefaultConfig_fields[OF a] r
    show "res = Inl ErrServiceUnavailable \<and> w' = w1 \<and> new_calls w w' = []"
      by (simp add: new_calls_def)
  qed
  have reserve: "\<forall>w1 err w2.
       LoadDefaultConfig w = (None, w1) \<and>
       saveFileContent bucket pre newFileName [] False w1 = (Inl err, w2) \<longrightarrow>
       res = Inl err \<and> w' = w2 \<and>
       new_calls w w' =
         (if fst (LoadDefaultConfig w1) = None
          then take 1 (rename_steps bucket pre fileName newFileName) else [])"
  proof (intro allI impI)
    fix w1 err w2
    assume a: "LoadDefaultConfig w = (None, w1) \<and>
         saveFileContent bucket pre newFileName [] False w1 = (Inl err, w2)"
    with assms have r: "res = Inl err" "w' = w2"
      by (simp_all add: renameFile_def)
    obtain f w1' where c: "LoadDefaultConfig w1 = (f, w1')"
      by (cases "LoadDefaultConfig w1")
    note c0 = LoadDefaultConfig_fields[of w None w1]
    note c1 = LoadDefaultConfig_fields[OF c]
    have "new_calls w w2 =
           (if fst (LoadDefaultConfig w1) = None
            then take 1 (rename_steps bucket pre fileName newFileName) else [])"
    proof (cases f)
      case (Some e)
      with a c c0 c1 show ?thesis
        by (auto simp: saveFileContent_def logAndReturnError_def new_calls_def)
    next
      case None
      obtain pr w2' where p: "s3_PutObject bucket (pre @ newFileName)
                 (if isMarkdown newFileName then ''text/markdown; charset=UTF-8'' else ''text/plain'')
                 [] (Some ''*'') w1' = (pr, w2')"
        by (cases "s3_PutObject bucket (pre @ newFileName)
                 (if isMarkdown newFileName then ''text/markdown; charset=UTF-8'' else ''text/plain'')
                 [] (Some ''*'') w1'")
      from a c None p have "w2 = w2'"
        by (auto simp: saveFileContent_def Let_def split: sum.splits if_splits)
      with s3_PutObject_effect[OF p] c0 c1 a c None show ?thesis
        by (simp add: new_calls_def rename_steps_def)
    qed
    with r show "res = Inl err \<and> w' = w2 \<and>
         new_calls w w' =
           (if fst (LoadDefaultConfig w1) = None
            then take 1 (rename_steps bucket pre fileName newFileName) else [])"
      by simp
  qed
  have copy: "\<forall>w1 s w2 err w3.
       LoadDefaultConfig w = (None, w1) \<and>
       saveFileContent bucket pre newFileName [] False w1 = (Inr s, w2) \<and>
       s3_CopyObject bucket (rename_source bucket pre fileName) (pre @ newFileName) w2
         = (Inl err, w3) \<longrightarrow>
       res = Inl (if ErrorCodeIs err ''NoSuchKey'' then ErrNotFound else ErrServiceUnavailable) \<and>
       w' = w3 \<and>
       new_calls w w' = take 2 (rename_steps bucket pre fileName newFileName)"
  proof (intro allI impI)
    fix w1 s w2 err w3
    assume a: "LoadDefaultConfig w = (None, w1) \<and>
         saveFileContent bucket pre newFileName [] False w1 = (Inr s, w2) \<and>
         s3_CopyObject bucket (rename_source bucket pre fileName) (pre @ newFileName) w2
           = (Inl err, w3)"
    with assms have r: "res = Inl (if ErrorCodeIs err ''NoSuchKey'' then ErrNotFound else ErrServiceUnavailable)"
        "w' = w3"
      by (auto simp: renameFile_def logAndReturnError_def split: if_splits)
    from a LoadDefaultConfig_fields[of w None w1]
      saveFileContent_effect[of bucket pre newFileName "[]" False w1 "Inr s" w2]
      s3_CopyObject_effect[of bucket "rename_source bucket pre fileName" "pre @ newFileName" w2 "Inl err" w3]
    have "new_calls w w3 = take 2 (rename_steps bucket pre fileName newFileName)"
      by (simp add: new_calls_def rename_steps_def)
    with r show "res = Inl (if ErrorCodeIs err ''NoSuchKey'' then ErrNotFound else ErrServiceUnavailable) \<and>
         w' = w3 \<and>
         new_calls w w' = take 2 (rename_steps bucket pre fileName newFileName)"
      by simp
  qed
  have delete: "\<forall>w1 s w2 etag w3 err w4.
       LoadDefaultConfig w = (None, w1) \<and>
       saveFileContent bucket pre newFileName [] False w1 = (Inr s, w2) \<and>
       s3_CopyObject bucket (rename_source bucket pre fileName) (pre @ newFileName) w2
         = (Inr etag, w3) \<and>
       s3_DeleteObject bucket (rename_key pre fileName) w3 = (Inl err, w4) \<longrightarrow>
       res = Inl ErrServiceUnavailable \<and> w' = w4 \<and>
       new_calls w w' = rename_steps bucket pre fileName newFileName"
  proof (intro allI impI)
    fix w1 s w2 etag w3 err w4
    assume a: "LoadDefaultConfig w = (None, w1) \<and>
         saveFileContent bucket pre newFileName [] False w1 = (Inr s, w2) \<and>
         s3_CopyObject bucket (rename_source bucket pre fileName) (pre @ newFileName) w2
           = (Inr etag, w3) \<and>
         s3_DeleteObject bucket (rename_key pre fileName) w3 = (Inl err, w4)"
    from a rename_reached_delete[of w w1 bucket pre newFileName s w2 fileName etag w3 "Inl err" w4] assms
    show "res = Inl ErrServiceUnavailable \<and> w' = w4 \<and>
         new_calls w w' = rename_steps bucket pre fileName newFileName"
      by (simp add: new_calls_def)
  qed
  have success: "\<forall>w1 s w2 etag w3 w4.
       LoadDefaultConfig w = (None, w1) \<and>
       saveFileContent bucket pre newFileName [] False w1 = (Inr s, w2) \<and>
       s3_CopyObject bucket (rename_source bucket pre fileName) (pre @ newFileName) w2
         = (Inr etag, w3) \<and>
       s3_DeleteObject bucket (rename_key pre fileName) w3 = (Inr (), w4) \<longrightarrow>
       res = Inr \<lparr>rename_ETag = etag\<rparr> \<and> w' = w4 \<and>
       new_calls w w' = rename_steps bucket pre fileName newFileName"
  proof (intro allI impI)
    fix w1 s w2 etag w3 w4
    assume a: "LoadDefaultConfig w = (None, w1) \<and>
         saveFileContent bucket pre newFileName [] False w1 = (Inr s, w2) \<and>
         s3_CopyObject bucket (rename_source bucket pre fileName) (pre @ newFileName) w2
           = (Inr etag, w3) \<and>
         s3_DeleteObject bucket (rename_key pre fileName) w3 = (Inr (), w4)"
    from a rename_reached_delete[of w w1 bucket pre newFileName s w2 fileName etag w3 "Inr ()" w4] assms
    show "res = Inr \<lparr>rename_ETag = etag\<rparr> \<and> w' = w4 \<and>
         new_calls w w' = rename_steps bucket pre fileName newFileName"
      by (simp add: new_calls_def)
  qed
  have result: "\<forall>r. res = Inr r \<longrightarrow>
       (\<exists>w1 s w2 w3.
          LoadDefaultConfig w = (None, w1) \<and>
          saveFileContent bucket pre newFileName [] False w1 = (Inr s, w2) \<and>
          s3_CopyObject bucket (rename_source bucket pre fileName) (pre @ newFileName) w2
            = (Inr (rename_ETag r), w3) \<and>
          s3_DeleteObject bucket (rename_key pre fileName) w3 = (Inr (), w'))"
  proof (intro allI impI)
    fix r assume r: "res = Inr r"
    from assms show "\<exists>w1 s w2 w3.
            LoadDefaultConfig w = (None, w1) \<and>
            saveFileContent bucket pre newFileName [] False w1 = (Inr s, w2) \<and>
            s3_CopyObject bucket (rename_source bucket pre fileName) (pre @ newFileName) w2
              = (Inr (rename_ETag r), w3) \<and>
            s3_DeleteObject bucket (rename_key pre fileName) w3 = (Inr (), w')"
    proof (cases rule: renameFile_cases)
      case (success w1 s w2 etag w3)
      with r show ?thesis by auto
    qed (use r in auto)
  qed
  show ?thesis
    by (rule conjI[OF config conjI[OF reserve conjI[OF copy conjI[OF delete conjI[OF success result]]]]])
qed


theorem renameFile_protocol_witness:
  "LoadDefaultConfig example_store = (None, example_store) \<and>
   fst (saveFileContent ''notes'' ''u1/'' ''b.txt'' [] False example_store)
     = Inr \<lparr>save_ETag = ''v:''\<rparr> \<and>
   fst (s3_CopyObject ''notes'' (rename_source ''notes'' ''u1/'' ''a.txt'') (''u1/'' @ ''b.txt'')
          (snd (saveFileContent ''notes'' ''u1/'' ''b.txt'' [] False example_store)))
     = Inr ''v:hello'' \<and>
   fst (s3_DeleteObject ''notes'' (rename_key ''u1/'' ''a.txt'')
          (snd (s3_CopyObject ''notes'' (rename_source ''notes'' ''u1/'' ''a.txt'')
                  (''u1/'' @ ''b.txt'')
                  (snd (saveFileContent ''notes'' ''u1/'' ''b.txt'' [] False example_store)))))
     = Inr () \<and>
   fst (renameFile ''notes'' ''u1/'' ''a.txt'' ''b.txt'' example_store)
     = Inr \<lparr>rename_ETag = ''v:hello''\<rparr> \<and>
   new_calls example_store (snd (renameFile ''notes'' ''u1/'' ''a.txt'' ''b.txt'' example_store))
     = rename_steps ''notes'' ''u1/'' ''a.txt'' ''b.txt'' \<and>
   fst (saveFileContent ''notes'' ''u1/'' ''a.txt'' [] False example_store) = Inl ErrAlreadyExists \<and>
   fst (renameFile ''notes'' ''u1/'' ''b.txt'' ''a.txt'' example_store) = Inl ErrAlreadyExists \<and>
   new_calls example_store (snd (renameFile ''notes'' ''u1/'' ''b.txt'' ''a.txt'' example_store))
     = take 1 (rename_steps ''notes'' ''u1/'' ''b.txt'' ''a.txt'')"
proof -
  let ?w2 = "snd (saveFileContent ''notes'' ''u1/'' ''b.txt'' [] False example_store)"
  let ?w3 = "snd (s3_CopyObject ''notes'' (rename_source ''notes'' ''u1/'' ''a.txt'')
                    (''u1/'' @ ''b.txt'') ?w2)"
  let ?w4 = "snd (s3_DeleteObject ''notes'' (rename_key ''u1/'' ''a.txt'') ?w3)"
  let ?v2 = "snd (saveFileContent ''notes'' ''u1/'' ''a.txt'' [] False example_store)"
  have c: "LoadDefaultConfig example_store = (None, example_store)"
    by (simp add: eval_world example_store_def)
  have sf: "fst (saveFileContent ''notes'' ''u1/'' ''b.txt'' [] False example_store)
             = Inr \<lparr>save_ETag = ''v:''\<rparr>"
    by (simp add: reserve_b)
  then have s: "saveFileContent ''notes'' ''u1/'' ''b.txt'' [] False example_store
             = (Inr \<lparr>save_ETag = ''v:''\<rparr>, ?w2)"
    by (simp add: prod_eq_iff)
  have pf: "fst (s3_CopyObject ''notes'' (rename_source ''notes'' ''u1/'' ''a.txt'')
                  (''u1/'' @ ''b.txt'') ?w2) = Inr ''v:hello''"
    unfolding reserve_b snd_conv by (simp add: eval_world eval_url example_store_def)
  then have p: "s3_CopyObject ''notes'' (rename_source ''notes'' ''u1/'' ''a.txt'') (''u1/'' @ ''b.txt'') ?w2
             = (Inr ''v:hello'', ?w3)"
    by (simp add: prod_eq_iff)
  have df: "fst (s3_DeleteObject ''notes'' (rename_key ''u1/'' ''a.txt'') ?w3) = Inr ()"
    unfolding reserve_b snd_conv by (simp add: eval_world eval_url example_store_def)
  then have d: "s3_DeleteObject ''notes'' (rename_key ''u1/'' ''a.txt'') ?w3 = (Inr (), ?w4)"
    by (simp add: prod_eq_iff)
  have tf: "fst (saveFileContent ''notes'' ''u1/'' ''a.txt'' [] False example_store)
             = Inl ErrAlreadyExists"
    by (simp add: saveFileContent_def eval_world eval_strings example_store_def)
  then have t: "saveFileContent ''notes'' ''u1/'' ''a.txt'' [] False example_store
             = (Inl ErrAlreadyExists, ?v2)"
    by (simp add: prod_eq_iff)
  have r: "renameFile ''notes'' ''u1/'' ''a.txt'' ''b.txt'' example_store =
     (fst (renameFile ''notes'' ''u1/'' ''a.txt'' ''b.txt'' example_store),
      snd (renameFile ''notes'' ''u1/'' ''a.txt'' ''b.txt'' example_store))"
    and q: "renameFile ''notes'' ''u1/'' ''b.txt'' ''a.txt'' example_store =
     (fst (renameFile ''notes'' ''u1/'' ''b.txt'' ''a.txt'' example_store),
      snd (renameFile ''notes'' ''u1/'' ''b.txt'' ''a.txt'' example_store))"
    by simp_all
  note ok = renameFile_protocol[OF r, THEN conjunct2, THEN conjunct2, THEN conjunct2,
      THEN conjunct2, THEN conjunct1, rule_format, OF conjI[OF c conjI[OF s conjI[OF p d]]]]
  note no = renameFile_protocol[OF q, THEN conjunct2, THEN conjunct1, rule_format,
      OF conjI[OF c t]]
  have l: "fst (LoadDefaultConfig example_store) = None"
    using c by simp
  have no3: "new_calls example_store (snd (renameFile ''notes'' ''u1/'' ''b.txt'' ''a.txt'' example_store))
     = take 1 (rename_steps ''notes'' ''u1/'' ''b.txt'' ''a.txt'')"
    using no[THEN conjunct2, THEN conjunct2] by (simp only: l simp_thms if_True)
  note ok1 = ok[THEN conjunct1] and ok3 = ok[THEN conjunct2, THEN conjunct2]
    and no1 = no[THEN conjunct1]
  show ?thesis
    by (intro conjI) (fact c sf pf df tf ok1 ok3 no1 no3)+
qed

theorem renameFile_protocol_counterexample:
  "fst (renameFile ''notes'' ''u1/'' ''b.txt'' ''a.txt'' example_store) = Inl ErrAlreadyExists \<and>
   new_calls example_store (snd (renameFile ''notes'' ''u1/'' ''b.txt'' ''a.txt'' example_store))
     = [PutObject ''notes'' ''u1/a.txt'' ''text/plain'' [] (Some ''*'')] \<and>
   length (new_calls example_store (snd (renameFile ''notes'' ''u1/'' ''b.txt'' ''a.txt'' example_store)))
     \<noteq> 3"
  by (simp add: renameFile_def saveFileContent_def eval_world eval_strings example_store_def)

subsection \<open>Write: create-only and overwrite\<close>

text \<open>
  Claim C2. A write with \<open>overwrite = false\<close> sends its put, and no other request, with
  the precondition \<open>If-None-Match: *\<close>; when the environment does not fail (the configuration loads and
  the store answers the request) it fails with \<open>AlreadyExists\<close> exactly when an object
  already exists at the key \<open>prefix + fileName\<close>, leaving the store as it was, and
  otherwise creates the object. A write with \<open>overwrite = true\<close> sends an unconditional
  put and replaces whatever the key held. Every successful write returns the fingerprint
  the store assigned to the content now stored at the key.
\<close>

theorem saveFileContent_create_or_overwrite:
  assumes "saveFileContent bucket pre fileName content overwrite w = (res, w')"
  shows "(healthy 2 w \<longrightarrow>
            new_calls w w' = [PutObject bucket (pre @ fileName)
               (if isMarkdown fileName then ''text/markdown; charset=UTF-8'' else ''text/plain'')
               content (if overwrite then None else Some ''*'')] \<and>
            (\<not> overwrite \<longrightarrow>
               (res = Inl ErrAlreadyExists \<longleftrightarrow> objects w (bucket, pre @ fileName) \<noteq> None) \<and>
               (objects w (bucket, pre @ fileName) \<noteq> None \<longrightarrow> objects w' = objects w)) \<and>
            (overwrite \<or> objects w (bucket, pre @ fileName) = None \<longrightarrow> (\<exists>r. res = Inr r))) \<and>
         (\<forall>rq \<in> set (new_calls w w').
            rq = PutObject bucket (pre @ fileName)
               (if isMarkdown fileName then ''text/markdown; charset=UTF-8'' else ''text/plain'')
               content (if overwrite then None else Some ''*'')) \<and>
         (\<forall>r. res = Inr r \<longrightarrow>
            save_ETag r = etag_of w content \<and>
            objects w' = (objects w)((bucket, pre @ fileName) \<mapsto>
              \<lparr>obj_body = content,
               obj_type = (if isMarkdown fileName then ''text/markdown; charset=UTF-8'' else ''text/plain''),
               obj_etag = save_ETag r\<rparr>))"
proof (intro conjI impI allI ballI)
  fix rq assume "rq \<in> set (new_calls w w')"
  with saveFileContent_effect[OF assms]
  show "rq = PutObject bucket (pre @ fileName)
               (if isMarkdown fileName then ''text/markdown; charset=UTF-8'' else ''text/plain'')
               content (if overwrite then None else Some ''*'')"
    by (cases res) (auto simp: new_calls_def)
next
  fix r assume "res = Inr r"
  with saveFileContent_effect[OF assms]
  show "save_ETag r = etag_of w content" 
    and "objects w' = (objects w)((bucket, pre @ fileName) \<mapsto>
              \<lparr>obj_body = content,
               obj_type = (if isMarkdown fileName then ''text/markdown; charset=UTF-8'' else ''text/plain''),
               obj_etag = save_ETag r\<rparr>)"
    by simp_all
next
  assume h: "healthy 2 w"
  then have "healthy (Suc (Suc 0)) w" by (simp add: numeral_2_eq_2)
  note eq = saveFileContent_healthy[OF this, of bucket pre fileName content overwrite]
  show "new_calls w w' = [PutObject bucket (pre @ fileName)
               (if isMarkdown fileName then ''text/markdown; charset=UTF-8'' else ''text/plain'')
               content (if overwrite then None else Some ''*'')]"
    using assms eq by (auto simp: new_calls_def split: if_splits)
  show "overwrite \<or> objects w (bucket, pre @ fileName) = None \<Longrightarrow> \<exists>r. res = Inr r"
    using assms eq by (auto split: if_splits)
  show "res = Inl ErrAlreadyExists \<longleftrightarrow> objects w (bucket, pre @ fileName) \<noteq> None" if "\<not> overwrite"
    using assms eq that by (auto split: if_splits)
  show "objects w' = objects w" if "\<not> overwrite" "objects w (bucket, pre @ fileName) \<noteq> None"
    using assms eq that by (auto split: if_splits)
qed

theorem saveFileContent_create_or_overwrite_witness:
  "healthy 2 example_store \<and>
   objects example_store (''notes'', ''u1/'' @ ''a.txt'') \<noteq> None \<and>
   fst (saveFileContent ''notes'' ''u1/'' ''a.txt'' ''x'' False example_store) = Inl ErrAlreadyExists \<and>
   objects (snd (saveFileContent ''notes'' ''u1/'' ''a.txt'' ''x'' False example_store))
     = objects example_store \<and>
   objects example_store (''notes'', ''u1/'' @ ''n.md'') = None \<and>
   fst (saveFileContent ''notes'' ''u1/'' ''n.md'' ''x'' False example_store)
     = Inr \<lparr>save_ETag = ''v:x''\<rparr> \<and>
   objects (snd (saveFileContent ''notes'' ''u1/'' ''n.md'' ''x'' False example_store))
      (''notes'', ''u1/n.md'')
     = Some \<lparr>obj_body = ''x'', obj_type = ''text/markdown; charset=UTF-8'', obj_etag = ''v:x''\<rparr> \<and>
   fst (saveFileContent ''notes'' ''u1/'' ''a.txt'' ''world'' True example_store)
     = Inr \<lparr>save_ETag = ''v:world''\<rparr> \<and>
   new_calls example_store (snd (saveFileContent ''notes'' ''u1/'' ''a.txt'' ''world'' True example_store))
     = [PutObject ''notes'' ''u1/a.txt'' ''text/plain'' ''world'' None] \<and>
   objects (snd (saveFileContent ''notes'' ''u1/'' ''a.txt'' ''world'' True example_store))
      (''notes'', ''u1/a.txt'')
     = Some \<lparr>obj_body = ''world'', obj_type = ''text/plain'', obj_etag = ''v:world''\<rparr>"
proof -
  have h: "healthy 2 example_store"
    by (simp add: healthy_def example_store_def)
  have o: "objects example_store (''notes'', ''u1/'' @ ''a.txt'') \<noteq> None"
    "objects example_store (''notes'', ''u1/'' @ ''n.md'') = None"
    by (simp_all add: example_store_def)
  have n: "saveFileContent ''notes'' ''u1/'' ''n.md'' ''x'' False example_store =
    (Inr \<lparr>save_ETag = ''v:x''\<rparr>,
     example_store\<lparr>calls := [PutObject ''notes'' ''u1/n.md'' ''text/markdown; charset=UTF-8'' ''x'' (Some ''*'')],
       objects := (objects example_store)((''notes'', ''u1/n.md'') \<mapsto>
          \<lparr>obj_body = ''x'', obj_type = ''text/markdown; charset=UTF-8'', obj_etag = ''v:x''\<rparr>)\<rparr>)"
    by (simp add: saveFileContent_def eval_world eval_strings example_store_def)
  have a: "saveFileContent ''notes'' ''u1/'' ''a.txt'' ''world'' True example_store =
    (Inr \<lparr>save_ETag = ''v:world''\<rparr>,
     example_store\<lparr>calls := [PutObject ''notes'' ''u1/a.txt'' ''text/plain'' ''world'' None],
       objects := (objects example_store)((''notes'', ''u1/a.txt'') \<mapsto>
          \<lparr>obj_body = ''world'', obj_type = ''text/plain'', obj_etag = ''v:world''\<rparr>)\<rparr>)"
    by (simp add: saveFileContent_def eval_world eval_strings example_store_def)
  have c: "calls example_store = []"
    by (simp add: example_store_def)
  from saveFileContent_create_or_overwrite
    [of "''notes''" "''u1/''" "''a.txt''" "''x''" False example_store
        "fst (saveFileContent ''notes'' ''u1/'' ''a.txt'' ''x'' False example_store)"
        "snd (saveFileContent ''notes'' ''u1/'' ''a.txt'' ''x'' False example_store)"]
    h o
  have "fst (saveFileContent ''notes'' ''u1/'' ''a.txt'' ''x'' False example_store) = Inl ErrAlreadyExists"
    and "objects (snd (saveFileContent ''notes'' ''u1/'' ''a.txt'' ''x'' False example_store))
     = objects example_store"
    by simp_all
  with h o c show ?thesis
    unfolding n a by (simp add: new_calls_def)
qed

subsection \<open>Rename: the reservation fails\<close>

text \<open>
  Claim C3. When the reservation step of a rename (the create-only empty write at the
  target key) fails, the rename returns that step's error, which is \<open>AlreadyExists\<close> or
  \<open>ServiceUnavailable\<close>, and \<open>AlreadyExists\<close> because the target key holds an object
  whenever the environment itself did not fail (in general it is \<open>AlreadyExists\<close> when the
  put is answered \<open>PreconditionFailed\<close> and \<open>ServiceUnavailable\<close> for every other
  failure); the call sends no request beyond the put
  of the reservation (no copy, no delete), and the store, the source object included, is
  as it was.
\<close>

theorem renameFile_reservation_fails:
  assumes "LoadDefaultConfig w = (None, w1)"
    and "saveFileContent bucket pre newFileName [] False w1 = (Inl err, w2)"
  shows "renameFile bucket pre fileName newFileName w = (Inl err, w2) \<and>
         (err = ErrAlreadyExists \<or> err = ErrServiceUnavailable) \<and>
         (healthy 3 w \<longrightarrow> err = ErrAlreadyExists \<and> objects w (bucket, pre @ newFileName) \<noteq> None) \<and>
         (\<forall>e w'. LoadDefaultConfig w1 = (Some e, w') \<longrightarrow> err = ErrServiceUnavailable) \<and>
         (\<forall>w' e w''. LoadDefaultConfig w1 = (None, w') \<and>
            s3_PutObject bucket (pre @ newFileName)
              (if isMarkdown newFileName then ''text/markdown; charset=UTF-8'' else ''text/plain'')
              [] (Some ''*'') w' = (Inl e, w'') \<longrightarrow>
            err = (if ErrorCodeIs e ''PreconditionFailed'' then ErrAlreadyExists
                   else ErrServiceUnavailable)) \<and>
         (\<exists>k\<le>1. new_calls w w2 = take k (rename_steps bucket pre fileName newFileName)) \<and>
         objects w2 = objects w"
proof (intro conjI impI allI)
  fix e w' assume "LoadDefaultConfig w1 = (Some e, w')"
  with assms(2) show "err = ErrServiceUnavailable"
    by (simp add: saveFileContent_def logAndReturnError_def)
next
  fix w' e w''
  assume "LoadDefaultConfig w1 = (None, w') \<and>
            s3_PutObject bucket (pre @ newFileName)
              (if isMarkdown newFileName then ''text/markdown; charset=UTF-8'' else ''text/plain'')
              [] (Some ''*'') w' = (Inl e, w'')"
  with assms(2) show "err = (if ErrorCodeIs e ''PreconditionFailed'' then ErrAlreadyExists
                   else ErrServiceUnavailable)"
    by (simp add: saveFileContent_def logAndReturnError_def Let_def split: if_splits)
next
  show "renameFile bucket pre fileName newFileName w = (Inl err, w2)"
    using assms by (simp add: renameFile_def)
  note c = LoadDefaultConfig_fields[OF assms(1)]
  note e = saveFileContent_effect[OF assms(2)]
  from e show "err = ErrAlreadyExists \<or> err = ErrServiceUnavailable" by simp
  from c e show "objects w2 = objects w" by simp
  from c e have "new_calls w w2 = take 0 (rename_steps bucket pre fileName newFileName) \<or>
                 new_calls w w2 = take 1 (rename_steps bucket pre fileName newFileName)"
    by (auto simp: new_calls_def rename_steps_def)
  then show "\<exists>k\<le>1. new_calls w w2 = take k (rename_steps bucket pre fileName newFileName)"
  proof
    assume "new_calls w w2 = take 0 (rename_steps bucket pre fileName newFileName)"
    then show ?thesis by (intro exI[of _ 0]) simp
  next
    assume "new_calls w w2 = take 1 (rename_steps bucket pre fileName newFileName)"
    then show ?thesis by (intro exI[of _ 1]) simp
  qed
next
  assume "healthy 3 w"
  then have h: "healthy (Suc (Suc (Suc 0))) w" by (simp add: numeral_3_eq_3)
  from healthy_next_fault[OF h] assms(1) have h1: "healthy (Suc (Suc 0)) w1"
    by (auto simp: LoadDefaultConfig_def)
  from saveFileContent_healthy[OF h1, of bucket pre newFileName "[]" False] assms(2)
    LoadDefaultConfig_fields[OF assms(1)]
  show "err = ErrAlreadyExists" and "objects w (bucket, pre @ newFileName) \<noteq> None"
    by (auto split: if_splits)
qed

theorem renameFile_reservation_fails_witness:
  "LoadDefaultConfig example_store = (None, example_store) \<and>
   fst (saveFileContent ''notes'' ''u1/'' ''a.txt'' [] False example_store) = Inl ErrAlreadyExists \<and>
   healthy 3 example_store \<and>
   fst (renameFile ''notes'' ''u1/'' ''b.txt'' ''a.txt'' example_store) = Inl ErrAlreadyExists \<and>
   objects (snd (renameFile ''notes'' ''u1/'' ''b.txt'' ''a.txt'' example_store))
     = objects example_store \<and>
   objects example_store (''notes'', ''u1/'' @ ''a.txt'') \<noteq> None"
proof -
  let ?w2 = "snd (saveFileContent ''notes'' ''u1/'' ''a.txt'' [] False example_store)"
  have c: "LoadDefaultConfig example_store = (None, example_store)"
    by (simp add: eval_world example_store_def)
  have sf: "fst (saveFileContent ''notes'' ''u1/'' ''a.txt'' [] False example_store)
             = Inl ErrAlreadyExists"
    by (simp add: saveFileContent_def eval_world eval_strings example_store_def)
  then have s: "saveFileContent ''notes'' ''u1/'' ''a.txt'' [] False example_store
             = (Inl ErrAlreadyExists, ?w2)"
    by (simp add: prod_eq_iff)
  have h: "healthy 3 example_store"
    by (simp add: healthy_def example_store_def)
  from renameFile_reservation_fails[OF c s, of "''b.txt''"] c sf h
  show ?thesis by simp
qed

subsection \<open>Rename: the source does not exist\<close>

text \<open>
  Claim C4. When the copy step of a rename fails with \<open>NoSuchKey\<close> (which, when the
  store itself answers, means that no object exists at the source key), the rename returns \<open>NotFound\<close>; the store is the initial one plus the
  empty object that the reservation created at the target key, which is not rolled back;
  and the requests sent are the put and the copy only, so no delete of the source key is
  sent.
\<close>

theorem renameFile_source_missing:
  assumes "LoadDefaultConfig w = (None, w1)"
    and "saveFileContent bucket pre newFileName [] False w1 = (Inr s, w2)"
    and "s3_CopyObject bucket (rename_source bucket pre fileName) (pre @ newFileName) w2
           = (Inl err, w3)"
    and "ErrorCodeIs err ''NoSuchKey''"
  shows "renameFile bucket pre fileName newFileName w = (Inl ErrNotFound, w3) \<and>
         objects w3 = (objects w)((bucket, pre @ newFileName) \<mapsto>
            \<lparr>obj_body = [],
             obj_type = (if isMarkdown newFileName then ''text/markdown; charset=UTF-8''
                         else ''text/plain''),
             obj_etag = etag_of w []\<rparr>) \<and>
         new_calls w w3 = take 2 (rename_steps bucket pre fileName newFileName) \<and>
         (healthy 1 w2 \<and> plain_names bucket pre \<longrightarrow>
            objects w2 (bucket, pre @ fileName) = None)"
proof (intro conjI impI)
  assume a: "healthy 1 w2 \<and> plain_names bucket pre"
  then have h: "healthy (Suc 0) w2" by simp
  from a have "copy_source (rename_source bucket pre fileName) = Some (bucket, pre @ fileName)"
    by (simp add: copy_source_rename_source rename_key_def)
  with s3_CopyObject_healthy[OF h, of bucket "rename_source bucket pre fileName" "pre @ newFileName"]
    assms(3)
  show "objects w2 (bucket, pre @ fileName) = None"
    by (auto split: option.splits)
next
  show "renameFile bucket pre fileName newFileName w = (Inl ErrNotFound, w3)"
    using assms by (simp add: renameFile_def logAndReturnError_def)
  note c = LoadDefaultConfig_fields[OF assms(1)]
  note e = saveFileContent_effect[OF assms(2)]
  note p = s3_CopyObject_effect[OF assms(3)]
  from c e p show "objects w3 = (objects w)((bucket, pre @ newFileName) \<mapsto>
            \<lparr>obj_body = [],
             obj_type = (if isMarkdown newFileName then ''text/markdown; charset=UTF-8''
                         else ''text/plain''),
             obj_etag = etag_of w []\<rparr>)"
    by simp
  from c e p show "new_calls w w3 = take 2 (rename_steps bucket pre fileName newFileName)"
    by (simp add: new_calls_def rename_steps_def)
qed

theorem renameFile_source_missing_witness:
  "LoadDefaultConfig example_store = (None, example_store) \<and>
   fst (saveFileContent ''notes'' ''u1/'' ''b.txt'' [] False example_store)
     = Inr \<lparr>save_ETag = ''v:''\<rparr> \<and>
   fst (s3_CopyObject ''notes'' (rename_source ''notes'' ''u1/'' ''zz.txt'') (''u1/'' @ ''b.txt'')
          (snd (saveFileContent ''notes'' ''u1/'' ''b.txt'' [] False example_store)))
     = Inl (APIError ''NoSuchKey'') \<and>
   ErrorCodeIs (APIError ''NoSuchKey'') ''NoSuchKey'' \<and>
   healthy 1 (snd (saveFileContent ''notes'' ''u1/'' ''b.txt'' [] False example_store)) \<and>
   plain_names ''notes'' ''u1/'' \<and>
   objects (snd (saveFileContent ''notes'' ''u1/'' ''b.txt'' [] False example_store))
      (''notes'', ''u1/'' @ ''zz.txt'') = None \<and>
   fst (renameFile ''notes'' ''u1/'' ''zz.txt'' ''b.txt'' example_store) = Inl ErrNotFound \<and>
   objects (snd (renameFile ''notes'' ''u1/'' ''zz.txt'' ''b.txt'' example_store))
      (''notes'', ''u1/b.txt'')
     = Some \<lparr>obj_body = [], obj_type = ''text/plain'', obj_etag = ''v:''\<rparr> \<and>
   new_calls example_store (snd (renameFile ''notes'' ''u1/'' ''zz.txt'' ''b.txt'' example_store))
     = [PutObject ''notes'' ''u1/b.txt'' ''text/plain'' [] (Some ''*''),
        CopyObject ''notes'' ''notes/u1/zz.txt'' ''u1/b.txt'']"
proof -
  let ?w2 = "snd (saveFileContent ''notes'' ''u1/'' ''b.txt'' [] False example_store)"
  let ?w3 = "snd (s3_CopyObject ''notes'' (rename_source ''notes'' ''u1/'' ''zz.txt'')
                    (''u1/'' @ ''b.txt'') ?w2)"
  have c: "LoadDefaultConfig example_store = (None, example_store)"
    by (simp add: eval_world example_store_def)
  have sf: "fst (saveFileContent ''notes'' ''u1/'' ''b.txt'' [] False example_store)
             = Inr \<lparr>save_ETag = ''v:''\<rparr>"
    by (simp add: reserve_b)
  then have s: "saveFileContent ''notes'' ''u1/'' ''b.txt'' [] False example_store
             = (Inr \<lparr>save_ETag = ''v:''\<rparr>, ?w2)"
    by (simp add: prod_eq_iff)
  have pf: "fst (s3_CopyObject ''notes'' (rename_source ''notes'' ''u1/'' ''zz.txt'')
                  (''u1/'' @ ''b.txt'') ?w2) = Inl (APIError ''NoSuchKey'')"
    unfolding reserve_b snd_conv by (simp add: eval_world eval_url example_store_def)
  then have p: "s3_CopyObject ''notes'' (rename_source ''notes'' ''u1/'' ''zz.txt'') (''u1/'' @ ''b.txt'') ?w2
             = (Inl (APIError ''NoSuchKey''), ?w3)"
    by (simp add: prod_eq_iff)
  have k: "ErrorCodeIs (APIError ''NoSuchKey'') ''NoSuchKey''"
    by simp
  have e: "etag_of example_store [] = ''v:''" "isMarkdown ''b.txt'' = False"
    by (simp_all add: example_store_def eval_strings)
  have g: "healthy 1 ?w2" "plain_names ''notes'' ''u1/''"
    unfolding reserve_b snd_conv by (simp_all add: healthy_def plain_names_def example_store_def)
  from renameFile_source_missing[OF c s p k] c sf pf e g
  show ?thesis
    by (simp add: rename_steps_def eval_url)
qed

subsection \<open>Rename: the delete of the source fails\<close>

text \<open>
  Claim C5. When the reservation and the copy of a rename succeeded and the delete of the
  source fails, the rename returns \<open>ServiceUnavailable\<close> and no fingerprint. Each of the
  three requests was sent exactly once (nothing is retried). The store is the initial
  one plus the target, which holds the content copied from the source; the source object
  is still there. (The names are such that the store resolves the copy source to the
  source key, see \<open>plain_names\<close>.)
\<close>

theorem renameFile_delete_fails:
  assumes "plain_names bucket pre"
    and "LoadDefaultConfig w = (None, w1)"
    and "saveFileContent bucket pre newFileName [] False w1 = (Inr s, w2)"
    and "s3_CopyObject bucket (rename_source bucket pre fileName) (pre @ newFileName) w2
           = (Inr etag, w3)"
    and "s3_DeleteObject bucket (rename_key pre fileName) w3 = (Inl err, w4)"
  shows "renameFile bucket pre fileName newFileName w = (Inl ErrServiceUnavailable, w4) \<and>
         new_calls w w4 = rename_steps bucket pre fileName newFileName \<and>
         (\<exists>src. objects w2 (bucket, pre @ fileName) = Some src \<and>
            (fileName \<noteq> newFileName \<longrightarrow> objects w (bucket, pre @ fileName) = Some src) \<and>
            etag = etag_of w (obj_body src) \<and>
            objects w4 = (objects w)((bucket, pre @ newFileName) \<mapsto> src\<lparr>obj_etag := etag\<rparr>) \<and>
            objects w4 (bucket, pre @ newFileName) = Some (src\<lparr>obj_etag := etag\<rparr>) \<and>
            objects w4 (bucket, pre @ fileName) \<noteq> None)"
proof (intro conjI)
  from rename_reached_delete[OF assms(2-5)]
  show "renameFile bucket pre fileName newFileName w = (Inl ErrServiceUnavailable, w4)"
    and "new_calls w w4 = rename_steps bucket pre fileName newFileName"
    by (simp_all add: new_calls_def)
  note c = LoadDefaultConfig_fields[OF assms(2)]
  note e = saveFileContent_effect[OF assms(3)]
  note p = s3_CopyObject_effect[OF assms(4)]
  note d = s3_DeleteObject_effect[OF assms(5)]
  from p copy_source_rename_source[OF assms(1), of fileName]
  obtain src where src: "objects w2 (bucket, pre @ fileName) = Some src"
      "etag = etag_of w2 (obj_body src)"
      "objects w3 = (objects w2)((bucket, pre @ newFileName) \<mapsto> src\<lparr>obj_etag := etag\<rparr>)"
    by (auto simp: rename_key_def)
  from e c have w2: "objects w2 = (objects w)((bucket, pre @ newFileName) \<mapsto>
             \<lparr>obj_body = [],
              obj_type = (if isMarkdown newFileName then ''text/markdown; charset=UTF-8'' else ''text/plain''),
              obj_etag = save_ETag s\<rparr>)" and et: "etag_of w2 = etag_of w"
    by simp_all
  from d have w4: "objects w4 = objects w3" by simp
  have "objects w4 = (objects w)((bucket, pre @ newFileName) \<mapsto> src\<lparr>obj_etag := etag\<rparr>)"
    unfolding w4 src(3) w2 by simp
  moreover have "fileName \<noteq> newFileName \<longrightarrow> objects w (bucket, pre @ fileName) = Some src"
    using src(1) unfolding w2 by (simp split: if_splits)
  moreover have "objects w4 (bucket, pre @ fileName) \<noteq> None"
    unfolding w4 src(3) using src(1) by simp
  ultimately
  show "\<exists>src. objects w2 (bucket, pre @ fileName) = Some src \<and>
            (fileName \<noteq> newFileName \<longrightarrow> objects w (bucket, pre @ fileName) = Some src) \<and>
            etag = etag_of w (obj_body src) \<and>
            objects w4 = (objects w)((bucket, pre @ newFileName) \<mapsto> src\<lparr>obj_etag := etag\<rparr>) \<and>
            objects w4 (bucket, pre @ newFileName) = Some (src\<lparr>obj_etag := etag\<rparr>) \<and>
            objects w4 (bucket, pre @ fileName) \<noteq> None"
    using src(1,2) et by (intro exI[of _ src]) simp
qed

lemma rename_a_b_failing:
  "renameFile ''notes'' ''u1/'' ''a.txt'' ''b.txt'' example_store_failing_fifth =
    (Inl ErrServiceUnavailable,
     example_store\<lparr>calls := rename_steps ''notes'' ''u1/'' ''a.txt'' ''b.txt'',
       objects := [(''notes'', ''u1/a.txt'') \<mapsto>
                   \<lparr>obj_body = ''hello'', obj_type = ''text/plain'', obj_etag = ''v:hello''\<rparr>,
                   (''notes'', ''u1/b.txt'') \<mapsto>
                   \<lparr>obj_body = ''hello'', obj_type = ''text/plain'', obj_etag = ''v:hello''\<rparr>]\<rparr>)"
  by (simp add: renameFile_def saveFileContent_def eval_world eval_strings eval_url
        example_store_def example_store_failing_fifth_def rename_steps_def fun_eq_iff)

theorem renameFile_delete_fails_witness:
  "plain_names ''notes'' ''u1/'' \<and>
   fst (LoadDefaultConfig example_store_failing_fifth) = None \<and>
   fst (saveFileContent ''notes'' ''u1/'' ''b.txt'' [] False
          (snd (LoadDefaultConfig example_store_failing_fifth)))
     = Inr \<lparr>save_ETag = ''v:''\<rparr> \<and>
   fst (s3_CopyObject ''notes'' (rename_source ''notes'' ''u1/'' ''a.txt'') (''u1/'' @ ''b.txt'')
          (snd (saveFileContent ''notes'' ''u1/'' ''b.txt'' [] False
                  (snd (LoadDefaultConfig example_store_failing_fifth)))))
     = Inr ''v:hello'' \<and>
   fst (s3_DeleteObject ''notes'' (rename_key ''u1/'' ''a.txt'')
          (snd (s3_CopyObject ''notes'' (rename_source ''notes'' ''u1/'' ''a.txt'')
                  (''u1/'' @ ''b.txt'')
                  (snd (saveFileContent ''notes'' ''u1/'' ''b.txt'' [] False
                          (snd (LoadDefaultConfig example_store_failing_fifth)))))))
     = Inl OtherError \<and>
   fst (renameFile ''notes'' ''u1/'' ''a.txt'' ''b.txt'' example_store_failing_fifth)
     = Inl ErrServiceUnavailable \<and>
   new_calls example_store_failing_fifth
      (snd (renameFile ''notes'' ''u1/'' ''a.txt'' ''b.txt'' example_store_failing_fifth))
     = rename_steps ''notes'' ''u1/'' ''a.txt'' ''b.txt'' \<and>
   objects (snd (renameFile ''notes'' ''u1/'' ''a.txt'' ''b.txt'' example_store_failing_fifth))
      (''notes'', ''u1/a.txt'')
     = Some \<lparr>obj_body = ''hello'', obj_type = ''text/plain'', obj_etag = ''v:hello''\<rparr> \<and>
   objects (snd (renameFile ''notes'' ''u1/'' ''a.txt'' ''b.txt'' example_store_failing_fifth))
      (''notes'', ''u1/b.txt'')
     = Some \<lparr>obj_body = ''hello'', obj_type = ''text/plain'', obj_etag = ''v:hello''\<rparr>"
proof -
  let ?w = example_store_failing_fifth
  let ?w1 = "snd (LoadDefaultConfig ?w)"
  let ?w2 = "snd (saveFileContent ''notes'' ''u1/'' ''b.txt'' [] False ?w1)"
  let ?w3 = "snd (s3_CopyObject ''notes'' (rename_source ''notes'' ''u1/'' ''a.txt'')
                    (''u1/'' @ ''b.txt'') ?w2)"
  let ?w4 = "snd (s3_DeleteObject ''notes'' (rename_key ''u1/'' ''a.txt'') ?w3)"
  have n: "plain_names ''notes'' ''u1/''"
    by (simp add: plain_names_def)
  have cf: "fst (LoadDefaultConfig ?w) = None"
    by (simp add: eval_world example_store_def example_store_failing_fifth_def)
  have sf: "fst (saveFileContent ''notes'' ''u1/'' ''b.txt'' [] False ?w1)
              = Inr \<lparr>save_ETag = ''v:''\<rparr>"
    by (simp add: saveFileContent_def eval_world eval_strings example_store_def
          example_store_failing_fifth_def)
  have pf: "fst (s3_CopyObject ''notes'' (rename_source ''notes'' ''u1/'' ''a.txt'')
                  (''u1/'' @ ''b.txt'') ?w2) = Inr ''v:hello''"
    by (simp add: saveFileContent_def eval_world eval_strings eval_url example_store_def
          example_store_failing_fifth_def)
  have df: "fst (s3_DeleteObject ''notes'' (rename_key ''u1/'' ''a.txt'') ?w3) = Inl OtherError"
    by (simp add: saveFileContent_def eval_world eval_strings eval_url example_store_def
          example_store_failing_fifth_def)
  have c: "LoadDefaultConfig ?w = (None, ?w1)"
    using cf by (simp add: prod_eq_iff)
  have s: "saveFileContent ''notes'' ''u1/'' ''b.txt'' [] False ?w1
              = (Inr \<lparr>save_ETag = ''v:''\<rparr>, ?w2)"
    using sf by (simp add: prod_eq_iff)
  have p: "s3_CopyObject ''notes'' (rename_source ''notes'' ''u1/'' ''a.txt'')
                  (''u1/'' @ ''b.txt'') ?w2 = (Inr ''v:hello'', ?w3)"
    using pf by (simp add: prod_eq_iff)
  have d: "s3_DeleteObject ''notes'' (rename_key ''u1/'' ''a.txt'') ?w3 = (Inl OtherError, ?w4)"
    using df by (simp add: prod_eq_iff)
  from renameFile_delete_fails[OF n c s p d]
  have "new_calls ?w ?w4 = rename_steps ''notes'' ''u1/'' ''a.txt'' ''b.txt''"
    and "renameFile ''notes'' ''u1/'' ''a.txt'' ''b.txt'' ?w = (Inl ErrServiceUnavailable, ?w4)"
    by blast+
  then have "new_calls ?w (snd (renameFile ''notes'' ''u1/'' ''a.txt'' ''b.txt'' ?w))
               = rename_steps ''notes'' ''u1/'' ''a.txt'' ''b.txt''"
    by simp
  with n cf sf pf df show ?thesis
    by (simp add: rename_a_b_failing)
qed

subsection \<open>Read: the conditional fetch\<close>

text \<open>
  Claim C6. When the environment does not fail (the configuration loads, the store
  answers, the body is read): a read with a non-empty fingerprint equal to the stored
  one fails with \<open>NotModified\<close>; a read with the empty fingerprint sends its request
  without a condition and returns the full content and the current fingerprint of an
  existing object; and a read at a key that holds no object fails with \<open>NotFound\<close>,
  whatever the fingerprint.
\<close>

theorem getFileContent_conditional_read:
  assumes "healthy 3 w"
  shows "(\<forall>obj. etag \<noteq> [] \<and> objects w (bucket, pre @ fileName) = Some obj \<and> obj_etag obj = etag \<longrightarrow>
            fst (getFileContent bucket pre fileName etag w) = Inl ErrNotModified) \<and>
         new_calls w (snd (getFileContent bucket pre fileName [] w))
           = [GetObject bucket (pre @ fileName) None] \<and>
         (\<forall>obj. objects w (bucket, pre @ fileName) = Some obj \<longrightarrow>
            fst (getFileContent bucket pre fileName [] w)
              = Inr \<lparr>Content = obj_body obj, get_ETag = obj_etag obj\<rparr>) \<and>
         (objects w (bucket, pre @ fileName) = None \<longrightarrow>
            fst (getFileContent bucket pre fileName etag w) = Inl ErrNotFound)"
proof -
  from assms have h: "healthy (Suc (Suc (Suc 0))) w"
    by (simp add: numeral_3_eq_3)
  note eq = getFileContent_healthy[OF h, of bucket pre fileName]
  show ?thesis
    by (simp add: eq new_calls_def split: option.splits)
qed

theorem getFileContent_conditional_read_witness:
  "healthy 3 example_store \<and>
   objects example_store (''notes'', ''u1/'' @ ''a.txt'')
     = Some \<lparr>obj_body = ''hello'', obj_type = ''text/plain'', obj_etag = ''v:hello''\<rparr> \<and>
   fst (getFileContent ''notes'' ''u1/'' ''a.txt'' ''v:hello'' example_store) = Inl ErrNotModified \<and>
   fst (getFileContent ''notes'' ''u1/'' ''a.txt'' [] example_store)
     = Inr \<lparr>Content = ''hello'', get_ETag = ''v:hello''\<rparr> \<and>
   objects example_store (''notes'', ''u1/'' @ ''zz.txt'') = None \<and>
   fst (getFileContent ''notes'' ''u1/'' ''zz.txt'' ''v:hello'' example_store) = Inl ErrNotFound"
proof -
  have h: "healthy 3 example_store"
    by (simp add: healthy_def example_store_def)
  have a: "objects example_store (''notes'', ''u1/'' @ ''a.txt'')
     = Some \<lparr>obj_body = ''hello'', obj_type = ''text/plain'', obj_etag = ''v:hello''\<rparr>"
    and z: "objects example_store (''notes'', ''u1/'' @ ''zz.txt'') = None"
    by (simp_all add: example_store_def)
  from getFileContent_conditional_read[OF h, of "''v:hello''" "''notes''" "''u1/''" "''a.txt''"]
    getFileContent_conditional_read[OF h, of "''v:hello''" "''notes''" "''u1/''" "''zz.txt''"]
    h a z
  show ?thesis by simp
qed

subsection \<open>Listing: the titles returned\<close>

text \<open>
  Claim C7, amended. The records of a listing (\<open>listFiles\<close>) are exactly the entries of
  the page the store returned whose key ends in \<open>.txt\<close> or \<open>.md\<close>, in the page's order,
  and the title of a record is the key of its entry with the namespace prefix cut off:
  the key is the prefix followed by the title when the key has the prefix, and the title
  ends in \<open>.txt\<close> or \<open>.md\<close> when the prefix is empty or ends in a slash (as every prefix
  \<open>userId + "/"\<close> does). A title of \<open>listFiles\<close> can contain a path separator, for a key
  below a sub-folder of the namespace: \<open>listFiles\<close> does not exclude it, as its
  description says. The records that \<open>handleGetFiles\<close> returns are those of \<open>listFiles\<close>
  with a valid file name; each of their titles ends in \<open>.txt\<close> or \<open>.md\<close>, contains no path
  separator and does not contain the namespace prefix \<open>userId + "/"\<close>.
\<close>

theorem listing_titles:
  "(listFiles bucket pre pageSize continuationToken w = (Inr result, w') \<longrightarrow>
      (\<exists>raw.
         lister w bucket pre (int32 pageSize)
           (if continuationToken \<noteq> [] then Some continuationToken else None) = Inr raw \<and>
         Files result =
           map (\<lambda>obj. \<lparr>FileName = fst (CutPrefix (Key obj) pre),
                        file_LastModified = LastModified obj, file_ETag = ETag obj\<rparr>)
               (filter (\<lambda>obj. HasSuffix (Key obj) ''.txt'' \<or> HasSuffix (Key obj) ''.md'')
                  (Contents raw)) \<and>
         (\<forall>f \<in> set (Files result). \<exists>obj \<in> set (Contents raw).
            (HasSuffix (Key obj) ''.txt'' \<or> HasSuffix (Key obj) ''.md'') \<and>
            FileName f = fst (CutPrefix (Key obj) pre) \<and>
            (HasPrefix (Key obj) pre \<longrightarrow> Key obj = pre @ FileName f) \<and>
            (pre = [] \<or> last pre = CHR ''/'' \<longrightarrow>
               HasSuffix (FileName f) ''.txt'' \<or> HasSuffix (FileName f) ''.md'')))) \<and>
   (handleGetFiles bucket userId query w = (Success out, w'') \<longrightarrow>
      (\<exists>size token listed.
         listFiles bucket (userId @ ''/'') size token w = (Inr listed, w'') \<and>
         out_Files out =
           map (\<lambda>f. \<lparr>out_FileName = FileName f, out_LastModified = file_LastModified f,
                      out_FileETag = file_ETag f\<rparr>)
               (filter (\<lambda>f. isFileNameValid (FileName f)) (Files listed)) \<and>
         (\<forall>item \<in> set (out_Files out).
            (HasSuffix (out_FileName item) ''.txt'' \<or> HasSuffix (out_FileName item) ''.md'') \<and>
            \<not> Contains (out_FileName item) ''/'' \<and>
            \<not> Contains (out_FileName item) (userId @ ''/''))))"
proof (rule conjI)
  let ?tok = "if continuationToken \<noteq> [] then Some continuationToken else None"
  show "listFiles bucket pre pageSize continuationToken w = (Inr result, w') \<longrightarrow>
      (\<exists>raw.
         lister w bucket pre (int32 pageSize) ?tok = Inr raw \<and>
         Files result =
           map (\<lambda>obj. \<lparr>FileName = fst (CutPrefix (Key obj) pre),
                        file_LastModified = LastModified obj, file_ETag = ETag obj\<rparr>)
               (filter (\<lambda>obj. HasSuffix (Key obj) ''.txt'' \<or> HasSuffix (Key obj) ''.md'')
                  (Contents raw)) \<and>
         (\<forall>f \<in> set (Files result). \<exists>obj \<in> set (Contents raw).
            (HasSuffix (Key obj) ''.txt'' \<or> HasSuffix (Key obj) ''.md'') \<and>
            FileName f = fst (CutPrefix (Key obj) pre) \<and>
            (HasPrefix (Key obj) pre \<longrightarrow> Key obj = pre @ FileName f) \<and>
            (pre = [] \<or> last pre = CHR ''/'' \<longrightarrow>
               HasSuffix (FileName f) ''.txt'' \<or> HasSuffix (FileName f) ''.md'')))"
  proof
    assume a: "listFiles bucket pre pageSize continuationToken w = (Inr result, w')"
    from listFiles_success[OF a] obtain raw where
      p: "lister w bucket pre (int32 pageSize) ?tok = Inr raw"
      and r: "Files result = processContents pre (Contents raw)"
      by auto
    have f: "Files result =
           map (\<lambda>obj. \<lparr>FileName = fst (CutPrefix (Key obj) pre),
                        file_LastModified = LastModified obj, file_ETag = ETag obj\<rparr>)
               (filter (\<lambda>obj. HasSuffix (Key obj) ''.txt'' \<or> HasSuffix (Key obj) ''.md'')
                  (Contents raw))"
      using r by (simp add: processContents_map_filter isSupportedFileType_def)
    have m: "\<forall>f \<in> set (Files result). \<exists>obj \<in> set (Contents raw).
            (HasSuffix (Key obj) ''.txt'' \<or> HasSuffix (Key obj) ''.md'') \<and>
            FileName f = fst (CutPrefix (Key obj) pre) \<and>
            (HasPrefix (Key obj) pre \<longrightarrow> Key obj = pre @ FileName f) \<and>
            (pre = [] \<or> last pre = CHR ''/'' \<longrightarrow>
               HasSuffix (FileName f) ''.txt'' \<or> HasSuffix (FileName f) ''.md'')"
    proof
      fix f :: FileData assume "f \<in> set (Files result)"
      with r processContents_member[of f pre "Contents raw"] obtain obj where
        o: "obj \<in> set (Contents raw)" "isSupportedFileType (Key obj)"
           "FileName f = fst (CutPrefix (Key obj) pre)"
        by auto
      have "HasPrefix (Key obj) pre \<longrightarrow> Key obj = pre @ FileName f"
        using CutPrefix_strips[of "Key obj" pre] o(3) by simp
      moreover have "pre = [] \<or> last pre = CHR ''/'' \<longrightarrow>
               HasSuffix (FileName f) ''.txt'' \<or> HasSuffix (FileName f) ''.md''"
        using title_suffix[OF o(2), of pre] o(3) by (simp add: isSupportedFileType_def)
      ultimately show "\<exists>obj \<in> set (Contents raw).
            (HasSuffix (Key obj) ''.txt'' \<or> HasSuffix (Key obj) ''.md'') \<and>
            FileName f = fst (CutPrefix (Key obj) pre) \<and>
            (HasPrefix (Key obj) pre \<longrightarrow> Key obj = pre @ FileName f) \<and>
            (pre = [] \<or> last pre = CHR ''/'' \<longrightarrow>
               HasSuffix (FileName f) ''.txt'' \<or> HasSuffix (FileName f) ''.md'')"
        using o by (intro bexI[of _ obj]) (simp_all add: isSupportedFileType_def)
    qed
    from p f m show "\<exists>raw.
         lister w bucket pre (int32 pageSize) ?tok = Inr raw \<and>
         Files result =
           map (\<lambda>obj. \<lparr>FileName = fst (CutPrefix (Key obj) pre),
                        file_LastModified = LastModified obj, file_ETag = ETag obj\<rparr>)
               (filter (\<lambda>obj. HasSuffix (Key obj) ''.txt'' \<or> HasSuffix (Key obj) ''.md'')
                  (Contents raw)) \<and>
         (\<forall>f \<in> set (Files result). \<exists>obj \<in> set (Contents raw).
            (HasSuffix (Key obj) ''.txt'' \<or> HasSuffix (Key obj) ''.md'') \<and>
            FileName f = fst (CutPrefix (Key obj) pre) \<and>
            (HasPrefix (Key obj) pre \<longrightarrow> Key obj = pre @ FileName f) \<and>
            (pre = [] \<or> last pre = CHR ''/'' \<longrightarrow>
               HasSuffix (FileName f) ''.txt'' \<or> HasSuffix (FileName f) ''.md''))"
      by blast
  qed
next
  show "handleGetFiles bucket userId query w = (Success out, w'') \<longrightarrow>
      (\<exists>size token listed.
         listFiles bucket (userId @ ''/'') size token w = (Inr listed, w'') \<and>
         out_Files out =
           map (\<lambda>f. \<lparr>out_FileName = FileName f, out_LastModified = file_LastModified f,
                      out_FileETag = file_ETag f\<rparr>)
               (filter (\<lambda>f. isFileNameValid (FileName f)) (Files listed)) \<and>
         (\<forall>item \<in> set (out_Files out).
            (HasSuffix (out_FileName item) ''.txt'' \<or> HasSuffix (out_FileName item) ''.md'') \<and>
            \<not> Contains (out_FileName item) ''/'' \<and>
            \<not> Contains (out_FileName item) (userId @ ''/'')))"
  proof
    assume a: "handleGetFiles bucket userId query w = (Success out, w'')"
    from handleGetFiles_success[OF a] obtain size token listed where
      l: "listFiles bucket (userId @ ''/'') size token w = (Inr listed, w'')"
      and o: "out_Files out = packFiles (Files listed)"
      by auto
    have f: "out_Files out =
           map (\<lambda>f. \<lparr>out_FileName = FileName f, out_LastModified = file_LastModified f,
                      out_FileETag = file_ETag f\<rparr>)
               (filter (\<lambda>f. isFileNameValid (FileName f)) (Files listed))"
      using o by (simp add: packFiles_map_filter)
    have m: "\<forall>item \<in> set (out_Files out).
            (HasSuffix (out_FileName item) ''.txt'' \<or> HasSuffix (out_FileName item) ''.md'') \<and>
            \<not> Contains (out_FileName item) ''/'' \<and>
            \<not> Contains (out_FileName item) (userId @ ''/'')"
    proof
      fix item :: FileDataOut assume "item \<in> set (out_Files out)"
      with o packFiles_member[of item "Files listed"] obtain f :: FileData where
        "isFileNameValid (FileName f)" "out_FileName item = FileName f"
        by auto
      with isFileNameValid_title[of "FileName f" userId]
      show "(HasSuffix (out_FileName item) ''.txt'' \<or> HasSuffix (out_FileName item) ''.md'') \<and>
            \<not> Contains (out_FileName item) ''/'' \<and>
            \<not> Contains (out_FileName item) (userId @ ''/'')"
        by simp
    qed
    from l f m show "\<exists>size token listed.
         listFiles bucket (userId @ ''/'') size token w = (Inr listed, w'') \<and>
         out_Files out =
           map (\<lambda>f. \<lparr>out_FileName = FileName f, out_LastModified = file_LastModified f,
                      out_FileETag = file_ETag f\<rparr>)
               (filter (\<lambda>f. isFileNameValid (FileName f)) (Files listed)) \<and>
         (\<forall>item \<in> set (out_Files out).
            (HasSuffix (out_FileName item) ''.txt'' \<or> HasSuffix (out_FileName item) ''.md'') \<and>
            \<not> Contains (out_FileName item) ''/'' \<and>
            \<not> Contains (out_FileName item) (userId @ ''/''))"
      by blast
  qed
qed

theorem listing_titles_witness:
  "fst (listFiles ''notes'' ''u1/'' 100 [] example_store)
     = Inr \<lparr>Files = [\<lparr>FileName = ''a.txt'', file_LastModified = 1, file_ETag = ''v:hello''\<rparr>,
                        \<lparr>FileName = ''sub/b.md'', file_LastModified = 3, file_ETag = ''v:3''\<rparr>],
             HasMore = False, list_NextContinuationToken = []\<rparr> \<and>
   last ''u1/'' = CHR ''/'' \<and>
   HasSuffix ''a.txt'' ''.txt'' \<and> HasSuffix ''sub/b.md'' ''.md'' \<and>
   fst (handleGetFiles ''notes'' ''u1'' (Some \<lparr>PageSize = 0, ContinuationToken = []\<rparr>) example_store)
     = Success \<lparr>out_Files = [\<lparr>out_FileName = ''a.txt'', out_LastModified = 1,
                                out_FileETag = ''v:hello''\<rparr>],
               out_HasMore = False, out_NextContinuationToken = []\<rparr> \<and>
   \<not> Contains ''a.txt'' ''/'' \<and> \<not> Contains ''a.txt'' (''u1'' @ ''/'')"
proof -
  let ?out = "\<lparr>out_Files = [\<lparr>out_FileName = ''a.txt'', out_LastModified = 1,
                                out_FileETag = ''v:hello''\<rparr>],
               out_HasMore = False, out_NextContinuationToken = []\<rparr>"
  have e: "handleGetFiles ''notes'' ''u1'' (Some \<lparr>PageSize = 0, ContinuationToken = []\<rparr>) example_store
     = (Success ?out,
        snd (handleGetFiles ''notes'' ''u1'' (Some \<lparr>PageSize = 0, ContinuationToken = []\<rparr>) example_store))"
    by (simp add: get_files_u1)
  have s: "HasSuffix ''a.txt'' ''.txt''" "HasSuffix ''sub/b.md'' ''.md''" "last ''u1/'' = CHR ''/''"
    by (simp_all add: HasSuffix_def)
  from listing_titles[THEN conjunct2, rule_format, OF e]
  have "\<forall>item \<in> set (out_Files ?out).
            (HasSuffix (out_FileName item) ''.txt'' \<or> HasSuffix (out_FileName item) ''.md'') \<and>
            \<not> Contains (out_FileName item) ''/'' \<and>
            \<not> Contains (out_FileName item) (''u1'' @ ''/'')"
    by blast
  then have c: "\<not> Contains ''a.txt'' ''/''" "\<not> Contains ''a.txt'' (''u1'' @ ''/'')"
    by simp_all
  from s c show ?thesis
    by (simp add: get_files_u1 list_u1)
qed

theorem listing_titles_counterexample:
  "fst (listFiles ''notes'' ''u1/'' 100 [] example_store)
     = Inr \<lparr>Files = [\<lparr>FileName = ''a.txt'', file_LastModified = 1, file_ETag = ''v:hello''\<rparr>,
                        \<lparr>FileName = ''sub/b.md'', file_LastModified = 3, file_ETag = ''v:3''\<rparr>],
             HasMore = False, list_NextContinuationToken = []\<rparr> \<and>
   Contains ''sub/b.md'' ''/''"
  by (simp add: list_u1 HasPrefix_def)

subsection \<open>Listing: filter after fetch\<close>

text \<open>
  Claim C8. A listing sends exactly one list request, with \<open>MaxKeys\<close> set from the page
  size, and never a second one (no short page is backfilled). When the environment does
  not fail and the store answers with a page, the listing succeeds and returns exactly
  the entries of that page whose key has a supported suffix, in the page's order, with
  \<open>HasMore\<close> the store's truncation flag; so the number of records is at most the number
  of raw entries, a page without a supported entry gives no record (with \<open>HasMore\<close>
  true when the page is truncated), and for every \<open>k \<le> n\<close> there is a listing that returns
  \<open>k\<close> records from a truncated page of \<open>n\<close> raw entries, with \<open>HasMore\<close> true.
\<close>

theorem listFiles_filter_after_fetch:
  "(healthy 2 w \<and>
    lister w bucket pre (int32 pageSize)
      (if continuationToken \<noteq> [] then Some continuationToken else None) = Inr page \<longrightarrow>
      listFiles bucket pre pageSize continuationToken w =
        (Inr \<lparr>Files =
                 map (\<lambda>obj. \<lparr>FileName = fst (CutPrefix (Key obj) pre),
                              file_LastModified = LastModified obj, file_ETag = ETag obj\<rparr>)
                     (filter (\<lambda>obj. isSupportedFileType (Key obj)) (Contents page)),
               HasMore = IsTruncated page,
               list_NextContinuationToken =
                 (case NextContinuationToken page of None \<Rightarrow> [] | Some t \<Rightarrow> t)\<rparr>,
         w\<lparr>calls := calls w @ [ListObjectsV2 bucket pre (int32 pageSize)
                (if continuationToken \<noteq> [] then Some continuationToken else None)],
           pending := drop 2 (pending w)\<rparr>)) \<and>
   (listFiles bucket pre pageSize continuationToken w = (Inr result, w') \<longrightarrow>
      (\<exists>raw.
         lister w bucket pre (int32 pageSize)
           (if continuationToken \<noteq> [] then Some continuationToken else None) = Inr raw \<and>
         new_calls w w' = [ListObjectsV2 bucket pre (int32 pageSize)
           (if continuationToken \<noteq> [] then Some continuationToken else None)] \<and>
         Files result =
           map (\<lambda>obj. \<lparr>FileName = fst (CutPrefix (Key obj) pre),
                        file_LastModified = LastModified obj, file_ETag = ETag obj\<rparr>)
               (filter (\<lambda>obj. isSupportedFileType (Key obj)) (Contents raw)) \<and>
         length (Files result) \<le> length (Contents raw) \<and>
         HasMore result = IsTruncated raw \<and>
         ((\<forall>obj \<in> set (Contents raw). \<not> isSupportedFileType (Key obj)) \<longrightarrow> Files result = []))) \<and>
   (\<forall>n k. k \<le> n \<longrightarrow>
      (\<exists>w0 raw r w1.
         lister w0 bucket pre (int32 pageSize)
           (if continuationToken \<noteq> [] then Some continuationToken else None) = Inr raw \<and>
         length (Contents raw) = n \<and> IsTruncated raw \<and>
         listFiles bucket pre pageSize continuationToken w0 = (Inr r, w1) \<and>
         length (Files r) = k \<and> HasMore r))"
proof -
  let ?tok = "if continuationToken \<noteq> [] then Some continuationToken else None"
  let ?rq = "ListObjectsV2 bucket pre (int32 pageSize) ?tok"
  have run: "healthy 2 w \<and> lister w bucket pre (int32 pageSize) ?tok = Inr page \<longrightarrow>
      listFiles bucket pre pageSize continuationToken w =
        (Inr \<lparr>Files =
                 map (\<lambda>obj. \<lparr>FileName = fst (CutPrefix (Key obj) pre),
                              file_LastModified = LastModified obj, file_ETag = ETag obj\<rparr>)
                     (filter (\<lambda>obj. isSupportedFileType (Key obj)) (Contents page)),
               HasMore = IsTruncated page,
               list_NextContinuationToken =
                 (case NextContinuationToken page of None \<Rightarrow> [] | Some t \<Rightarrow> t)\<rparr>,
         w\<lparr>calls := calls w @ [?rq], pending := drop 2 (pending w)\<rparr>)"
    for w page
  proof
    assume a: "healthy 2 w \<and> lister w bucket pre (int32 pageSize) ?tok = Inr page"
    then have h: "healthy (Suc (Suc 0)) w" by (simp add: numeral_2_eq_2)
    from a show "listFiles bucket pre pageSize continuationToken w =
        (Inr \<lparr>Files =
                 map (\<lambda>obj. \<lparr>FileName = fst (CutPrefix (Key obj) pre),
                              file_LastModified = LastModified obj, file_ETag = ETag obj\<rparr>)
                     (filter (\<lambda>obj. isSupportedFileType (Key obj)) (Contents page)),
               HasMore = IsTruncated page,
               list_NextContinuationToken =
                 (case NextContinuationToken page of None \<Rightarrow> [] | Some t \<Rightarrow> t)\<rparr>,
         w\<lparr>calls := calls w @ [?rq], pending := drop 2 (pending w)\<rparr>)"
      by (simp add: listFiles_healthy[OF h] processContents_map_filter)
  qed
  have given: "listFiles bucket pre pageSize continuationToken w = (Inr result, w') \<longrightarrow>
      (\<exists>raw.
         lister w bucket pre (int32 pageSize) ?tok = Inr raw \<and>
         new_calls w w' = [?rq] \<and>
         Files result =
           map (\<lambda>obj. \<lparr>FileName = fst (CutPrefix (Key obj) pre),
                        file_LastModified = LastModified obj, file_ETag = ETag obj\<rparr>)
               (filter (\<lambda>obj. isSupportedFileType (Key obj)) (Contents raw)) \<and>
         length (Files result) \<le> length (Contents raw) \<and>
         HasMore result = IsTruncated raw \<and>
         ((\<forall>obj \<in> set (Contents raw). \<not> isSupportedFileType (Key obj)) \<longrightarrow> Files result = []))"
  proof
    assume a: "listFiles bucket pre pageSize continuationToken w = (Inr result, w')"
    from listFiles_success[OF a] obtain raw where
      p: "lister w bucket pre (int32 pageSize) ?tok = Inr raw"
      and c: "calls w' = calls w @ [?rq]"
      and r: "result = \<lparr>Files = processContents pre (Contents raw), HasMore = IsTruncated raw,
                list_NextContinuationToken =
                  (case NextContinuationToken raw of None \<Rightarrow> [] | Some t \<Rightarrow> t)\<rparr>"
      by blast
    have f: "Files result =
           map (\<lambda>obj. \<lparr>FileName = fst (CutPrefix (Key obj) pre),
                        file_LastModified = LastModified obj, file_ETag = ETag obj\<rparr>)
               (filter (\<lambda>obj. isSupportedFileType (Key obj)) (Contents raw))"
      by (simp add: r processContents_map_filter)
    have l: "length (Files result) \<le> length (Contents raw)"
      by (simp add: f)
    have e: "(\<forall>obj \<in> set (Contents raw). \<not> isSupportedFileType (Key obj)) \<longrightarrow> Files result = []"
      by (simp add: f filter_empty_conv)
    have m: "HasMore result = IsTruncated raw"
      by (simp add: r)
    have nc: "new_calls w w' = [?rq]"
      using c by (simp add: new_calls_def)
    from p nc f l m e show "\<exists>raw.
         lister w bucket pre (int32 pageSize) ?tok = Inr raw \<and>
         new_calls w w' = [?rq] \<and>
         Files result =
           map (\<lambda>obj. \<lparr>FileName = fst (CutPrefix (Key obj) pre),
                        file_LastModified = LastModified obj, file_ETag = ETag obj\<rparr>)
               (filter (\<lambda>obj. isSupportedFileType (Key obj)) (Contents raw)) \<and>
         length (Files result) \<le> length (Contents raw) \<and>
         HasMore result = IsTruncated raw \<and>
         ((\<forall>obj \<in> set (Contents raw). \<not> isSupportedFileType (Key obj)) \<longrightarrow> Files result = [])"
      by blast
  qed
  have any: "\<forall>n k. k \<le> n \<longrightarrow>
      (\<exists>w0 raw r w1.
         lister w0 bucket pre (int32 pageSize) ?tok = Inr raw \<and>
         length (Contents raw) = n \<and> IsTruncated raw \<and>
         listFiles bucket pre pageSize continuationToken w0 = (Inr r, w1) \<and>
         length (Files r) = k \<and> HasMore r)"
  proof (intro allI impI)
    fix n k :: nat assume kn: "k \<le> n"
    let ?cs = "replicate k \<lparr>Key = ''a.txt'', LastModified = 0, ETag = []\<rparr> @
               replicate (n - k) \<lparr>Key = ''a.png'', LastModified = 0, ETag = []\<rparr>"
    let ?raw = "\<lparr>Contents = ?cs, IsTruncated = True, NextContinuationToken = None\<rparr>"
    let ?w0 = "example_store\<lparr>lister := \<lambda>b p m t. Inr ?raw\<rparr>"
    have h: "healthy 2 ?w0"
      by (simp add: healthy_def example_store_def)
    have li: "lister ?w0 bucket pre (int32 pageSize) ?tok = Inr ?raw"
      by simp
    have fl: "filter (\<lambda>obj. isSupportedFileType (Key obj)) ?cs
            = replicate k \<lparr>Key = ''a.txt'', LastModified = 0, ETag = []\<rparr>"
      by (simp add: isSupportedFileType_def HasSuffix_def)
    from run[of ?w0 ?raw] h li
    obtain r w1 where e: "listFiles bucket pre pageSize continuationToken ?w0 = (Inr r, w1)"
      and r: "r = \<lparr>Files =
                 map (\<lambda>obj. \<lparr>FileName = fst (CutPrefix (Key obj) pre),
                              file_LastModified = LastModified obj, file_ETag = ETag obj\<rparr>)
                     (filter (\<lambda>obj. isSupportedFileType (Key obj)) (Contents ?raw)),
               HasMore = IsTruncated ?raw,
               list_NextContinuationToken =
                 (case NextContinuationToken ?raw of None \<Rightarrow> [] | Some t \<Rightarrow> t)\<rparr>"
      by blast
    have "length (Files r) = k" "HasMore r"
      unfolding r using fl by simp_all
    moreover have "length (Contents ?raw) = n" "IsTruncated ?raw"
      using kn by simp_all
    ultimately show "\<exists>w0 raw r w1.
         lister w0 bucket pre (int32 pageSize) ?tok = Inr raw \<and>
         length (Contents raw) = n \<and> IsTruncated raw \<and>
         listFiles bucket pre pageSize continuationToken w0 = (Inr r, w1) \<and>
         length (Files r) = k \<and> HasMore r"
      using li e by blast
  qed
  show ?thesis
    by (rule conjI[OF run conjI[OF given any]])
qed


theorem listFiles_filter_after_fetch_witness:
  "healthy 2 example_store \<and>
   lister example_store ''notes'' ''u2/'' (int32 2) None
     = Inr \<lparr>Contents = [\<lparr>Key = ''u2/pic.png'', LastModified = 1, ETag = ''v:1''\<rparr>,
                          \<lparr>Key = ''u2/doc.pdf'', LastModified = 2, ETag = ''v:2''\<rparr>],
              IsTruncated = True, NextContinuationToken = Some ''t1''\<rparr> \<and>
   fst (listFiles ''notes'' ''u2/'' 2 [] example_store)
     = Inr \<lparr>Files = [], HasMore = True, list_NextContinuationToken = ''t1''\<rparr> \<and>
   new_calls example_store (snd (listFiles ''notes'' ''u2/'' 2 [] example_store))
     = [ListObjectsV2 ''notes'' ''u2/'' 2 None] \<and>
   lister example_store ''notes'' ''u1/'' (int32 100) None
     = Inr \<lparr>Contents = [\<lparr>Key = ''u1/a.txt'', LastModified = 1, ETag = ''v:hello''\<rparr>,
                          \<lparr>Key = ''u1/pic.png'', LastModified = 2, ETag = ''v:2''\<rparr>,
                          \<lparr>Key = ''u1/sub/b.md'', LastModified = 3, ETag = ''v:3''\<rparr>],
              IsTruncated = False, NextContinuationToken = None\<rparr> \<and>
   fst (listFiles ''notes'' ''u1/'' 100 [] example_store)
     = Inr \<lparr>Files = [\<lparr>FileName = ''a.txt'', file_LastModified = 1, file_ETag = ''v:hello''\<rparr>,
                        \<lparr>FileName = ''sub/b.md'', file_LastModified = 3, file_ETag = ''v:3''\<rparr>],
             HasMore = False, list_NextContinuationToken = []\<rparr>"
proof -
  have h: "healthy 2 example_store"
    by (simp add: healthy_def example_store_def)
  have l2: "lister example_store ''notes'' ''u2/'' (int32 2) (if [] \<noteq> [] then Some [] else None)
     = Inr \<lparr>Contents = [\<lparr>Key = ''u2/pic.png'', LastModified = 1, ETag = ''v:1''\<rparr>,
                          \<lparr>Key = ''u2/doc.pdf'', LastModified = 2, ETag = ''v:2''\<rparr>],
              IsTruncated = True, NextContinuationToken = Some ''t1''\<rparr>"
    and l1: "lister example_store ''notes'' ''u1/'' (int32 100) (if [] \<noteq> [] then Some [] else None)
     = Inr \<lparr>Contents = [\<lparr>Key = ''u1/a.txt'', LastModified = 1, ETag = ''v:hello''\<rparr>,
                          \<lparr>Key = ''u1/pic.png'', LastModified = 2, ETag = ''v:2''\<rparr>,
                          \<lparr>Key = ''u1/sub/b.md'', LastModified = 3, ETag = ''v:3''\<rparr>],
              IsTruncated = False, NextContinuationToken = None\<rparr>"
    by (simp_all add: example_store_def)
  note t2 = listFiles_filter_after_fetch[THEN conjunct1, rule_format, OF conjI[OF h l2]]
  note t1 = listFiles_filter_after_fetch[THEN conjunct1, rule_format, OF conjI[OF h l1]]
  have c: "calls example_store = []"
    by (simp add: example_store_def)
  have r2: "fst (listFiles ''notes'' ''u2/'' 2 [] example_store)
     = Inr \<lparr>Files = [], HasMore = True, list_NextContinuationToken = ''t1''\<rparr>"
    unfolding t2 by (simp add: eval_strings)
  have n2: "new_calls example_store (snd (listFiles ''notes'' ''u2/'' 2 [] example_store))
     = [ListObjectsV2 ''notes'' ''u2/'' 2 None]"
    unfolding t2 by (simp add: new_calls_def int32_def c)
  have r1: "fst (listFiles ''notes'' ''u1/'' 100 [] example_store)
     = Inr \<lparr>Files = [\<lparr>FileName = ''a.txt'', file_LastModified = 1, file_ETag = ''v:hello''\<rparr>,
                        \<lparr>FileName = ''sub/b.md'', file_LastModified = 3, file_ETag = ''v:3''\<rparr>],
             HasMore = False, list_NextContinuationToken = []\<rparr>"
    unfolding t1 by (simp add: eval_strings)
  from h l1 l2 r1 r2 n2 show ?thesis
    by simp
qed

subsection \<open>Delete\<close>




subsection \<open>Rename: the two names of the source\<close>



end
